theory Spec2Isabelle
  imports
    Main
    "HOL-Library.Char_ord"
    "HOL-Library.List_Lexorder"
    "HOL-Library.Multiset"
    "HOL-Library.AList"
begin

section \<open>JSON values as the program sees them\<close>

text \<open>
  The benchmark works on documents parsed by \<^verbatim>\<open>JSON.parse\<close> (axios hands over the parsed
  response body). A parsed document is a tree: an object is the list of its own properties in
  property order, with pairwise different keys. Numbers are modelled as integers (rendered in
  plain decimal by \<^verbatim>\<open>JSON.stringify\<close>); strings are sequences of 8-bit code units,
  compared code unit by code unit as \<^verbatim>\<open>Array.prototype.sort\<close> does.
\<close>

datatype json =
    JNull
  | JBool bool
  | JNum int
  | JStr string
  | JArr "json list"
  | JObj "(string \<times> json) list"

text \<open>What the program can throw or log while it handles one item.\<close>

datatype failure =
    TypeError
  | NetworkError string
  | DifferingUrlFields
  | MalformedSchemaObject string

text \<open>\<^verbatim>\<open>xs.join(sep)\<close> on a list of strings.\<close>

fun join :: "string \<Rightarrow> string list \<Rightarrow> string" where
  "join sep [] = []"
| "join sep [x] = x"
| "join sep (x # y # ys) = x @ sep @ join sep (y # ys)"

definition digit_char :: "nat \<Rightarrow> char" where
  "digit_char d = ''0123456789abcdef'' ! d"

text \<open>\<^verbatim>\<open>String(i)\<close> for an array index, and the decimal rendering of an integer.\<close>

fun show_nat :: "nat \<Rightarrow> string" where
  "show_nat n = (if n < 10 then [digit_char n] else show_nat (n div 10) @ [digit_char (n mod 10)])"

definition show_int :: "int \<Rightarrow> string" where
  "show_int i = (if i < 0 then CHR ''-'' # show_nat (nat (- i)) else show_nat (nat i))"

text \<open>
  \<^verbatim>\<open>JSON.stringify\<close> on a string: the text between double quotes, with the quote, the
  backslash and the control characters escaped.
\<close>

definition escape_char :: "char \<Rightarrow> string" where
  "escape_char c =
     (if c = CHR 0x22 then [CHR 0x5C, CHR 0x22]
      else if c = CHR 0x5C then [CHR 0x5C, CHR 0x5C]
      else if c = CHR 0x08 then [CHR 0x5C, CHR ''b'']
      else if c = CHR 0x0C then [CHR 0x5C, CHR ''f'']
      else if c = CHR 0x0A then [CHR 0x5C, CHR ''n'']
      else if c = CHR 0x0D then [CHR 0x5C, CHR ''r'']
      else if c = CHR 0x09 then [CHR 0x5C, CHR ''t'']
      else if (of_char c :: nat) < 32
        then [CHR 0x5C, CHR ''u'', CHR ''0'', CHR ''0'',
              digit_char (of_char c div 16), digit_char (of_char c mod 16)]
      else [c])"

definition JSON_stringify_string :: "string \<Rightarrow> string" where
  "JSON_stringify_string s = CHR 0x22 # concat (map escape_char s) @ [CHR 0x22]"

section \<open>Integrity verifier (src/utils/generateReport.js, imported as utils/merkle.js)\<close>

lemma size_map_of_lt [termination_simp]:
  "map_of kvs k = Some v \<Longrightarrow> size v < Suc (size_list (\<lambda>x. Suc (size (snd x))) kvs)"
  by (induction kvs) (auto split: if_splits)

text \<open>
  \<^verbatim>\<open>stableStringify(obj)\<close>: arrays keep their order; an object lists its keys sorted, each
  followed by the stringification of \<^verbatim>\<open>obj[key]\<close>; anything else goes to
  \<^verbatim>\<open>JSON.stringify\<close>. The \<open>None\<close> branch of the lookup is what a template string
  would print for \<^verbatim>\<open>undefined\<close>; a key taken from \<^verbatim>\<open>Object.keys(obj)\<close> never reaches it.
\<close>

fun stableStringify :: "json \<Rightarrow> string" where
  "stableStringify (JArr xs) = ''['' @ join '','' (map stableStringify xs) @ '']''"
| "stableStringify (JObj kvs) =
     ''{'' @ join '',''
        (map (\<lambda>key. JSON_stringify_string key @ '':'' @
                (case map_of kvs key of Some v \<Rightarrow> stableStringify v | None \<Rightarrow> ''undefined''))
             (sort (map fst kvs))) @ ''}''"
| "stableStringify JNull = ''null''"
| "stableStringify (JBool b) = (if b then ''true'' else ''false'')"
| "stableStringify (JNum n) = show_int n"
| "stableStringify (JStr s) = JSON_stringify_string s"

text \<open>
  \<^verbatim>\<open>Object.entries(x)\<close>: index/element pairs of an array (indices as decimal strings),
  the properties of an object, index/character pairs of a string, nothing for a number or a
  boolean; \<^verbatim>\<open>null\<close> throws.
\<close>

fun Object_entries :: "json \<Rightarrow> failure + (string \<times> json) list" where
  "Object_entries JNull = Inl TypeError"
| "Object_entries (JArr xs) = Inr (zip (map show_nat [0..<length xs]) xs)"
| "Object_entries (JObj kvs) = Inr kvs"
| "Object_entries (JStr s) = Inr (zip (map show_nat [0..<length s]) (map (\<lambda>c. JStr [c]) s))"
| "Object_entries (JBool b) = Inr []"
| "Object_entries (JNum n) = Inr []"

text \<open>
  The string \<^verbatim>\<open>jsonStr\<close> that \<^verbatim>\<open>calculateModuleChecksum\<close> hashes:
  \<^verbatim>\<open>stableStringify(Object.fromEntries(Object.entries(modJson).filter(([k]) => k !== 'checksum')))\<close>.
\<close>

definition moduleJsonStr :: "json \<Rightarrow> failure + string" where
  "moduleJsonStr modJson =
     (case Object_entries modJson of
        Inl e \<Rightarrow> Inl e
      | Inr entries \<Rightarrow>
          Inr (stableStringify (JObj (filter (\<lambda>(k, v). k \<noteq> ''checksum'') entries))))"

text \<open>
  \<^verbatim>\<open>calculateModuleChecksum\<close>. The hash \<open>H\<close> stands for
  \<^verbatim>\<open>s => createHash('sha256').update(s).digest('hex')\<close> of Node's crypto module.
\<close>

definition calculateModuleChecksum :: "(string \<Rightarrow> string) \<Rightarrow> json \<Rightarrow> failure + string" where
  "calculateModuleChecksum H modJson =
     (case moduleJsonStr modJson of
        Inl e \<Rightarrow> Inl e
      | Inr jsonStr \<Rightarrow> Inr (H jsonStr))"

text \<open>
  \<^verbatim>\<open>calculateMerkleRoot\<close>. \<open>merkle_for\<close> is the inner \<^verbatim>\<open>for (i = 0; i < level.length; i += 2)\<close>
  loop that fills \<^verbatim>\<open>next\<close>; \<open>merkle_while\<close> is the outer \<^verbatim>\<open>while (level.length > 1)\<close>.
\<close>

function merkle_for :: "(string \<Rightarrow> string) \<Rightarrow> string list \<Rightarrow> nat \<Rightarrow> string list \<Rightarrow> string list" where
  "merkle_for H level i next =
     (if i < length level then
        (if i + 1 < length level
         then merkle_for H level (i + 2) (next @ [H (level ! i @ level ! (i + 1))])
         else merkle_for H level (i + 2) (next @ [H (level ! i @ level ! i)]))
      else next)"
  by pat_completeness auto
termination
  by (relation "measure (\<lambda>(H, level, i, next). length level - i)") auto

lemma length_merkle_for:
  "length (merkle_for H level i next) = length next + (length level - i + 1) div 2"
proof (induction H level i "next" rule: merkle_for.induct)
  case (1 H level i nxt)
  show ?case
  proof (cases "i < length level")
    case False
    then show ?thesis by simp
  next
    case True
    note lt = this
    show ?thesis
    proof (cases "i + 1 < length level")
      case True
      have "merkle_for H level i nxt =
            merkle_for H level (i + 2) (nxt @ [H (level ! i @ level ! (i + 1))])"
        using lt True by (subst merkle_for.simps) simp
      moreover have "length (merkle_for H level (i + 2) (nxt @ [H (level ! i @ level ! (i + 1))]))
          = length (nxt @ [H (level ! i @ level ! (i + 1))]) + (length level - (i + 2) + 1) div 2"
        using "1.IH"(1)[OF lt True] .
      ultimately show ?thesis using lt True by (simp del: merkle_for.simps)
    next
      case False
      have "merkle_for H level i nxt = merkle_for H level (i + 2) (nxt @ [H (level ! i @ level ! i)])"
        using lt False by (subst merkle_for.simps) simp
      moreover have "length (merkle_for H level (i + 2) (nxt @ [H (level ! i @ level ! i)]))
          = length (nxt @ [H (level ! i @ level ! i)]) + (length level - (i + 2) + 1) div 2"
        using "1.IH"(2)[OF lt False] .
      ultimately show ?thesis using lt False by (simp del: merkle_for.simps; arith?)
    qed
  qed
qed

declare merkle_for.simps [simp del]

function merkle_while :: "(string \<Rightarrow> string) \<Rightarrow> string list \<Rightarrow> string list" where
  "merkle_while H level =
     (if length level > 1 then merkle_while H (merkle_for H level 0 []) else level)"
  by pat_completeness auto
termination
  by (relation "measure (\<lambda>(H, level). length level)") (auto simp: length_merkle_for)

declare merkle_while.simps [simp del]

definition calculateMerkleRoot :: "(string \<Rightarrow> string) \<Rightarrow> string list \<Rightarrow> string" where
  "calculateMerkleRoot H leaves =
     (if length leaves = 0 then '''' else merkle_while H leaves ! 0)"

section \<open>JavaScript operators on parsed JSON\<close>

text \<open>Truthiness; \<open>None\<close> stands for \<^verbatim>\<open>undefined\<close>.\<close>

fun truthy :: "json \<Rightarrow> bool" where
  "truthy JNull = False"
| "truthy (JBool b) = b"
| "truthy (JNum n) = (n \<noteq> 0)"
| "truthy (JStr s) = (s \<noteq> [])"
| "truthy (JArr xs) = True"
| "truthy (JObj kvs) = True"

fun truthy_opt :: "json option \<Rightarrow> bool" where
  "truthy_opt None = False"
| "truthy_opt (Some v) = truthy v"

text \<open>
  The property read \<^verbatim>\<open>x.k\<close> (or \<^verbatim>\<open>x['k']\<close>) for a property name that is neither an
  index nor built in: every name the program reads (\<^verbatim>\<open>url\<close>, \<^verbatim>\<open>og:url\<close>,
  \<^verbatim>\<open>checksum\<close>, \<^verbatim>\<open>modules\<close>, \<^verbatim>\<open>verification\<close>, \<^verbatim>\<open>merkleRoot\<close>) is of
  that kind. Reading from \<^verbatim>\<open>null\<close> throws a TypeError.
\<close>

fun getProp :: "json \<Rightarrow> string \<Rightarrow> failure + json option" where
  "getProp JNull k = Inl TypeError"
| "getProp (JObj kvs) k = Inr (map_of kvs k)"
| "getProp (JBool b) k = Inr None"
| "getProp (JNum n) k = Inr None"
| "getProp (JStr s) k = Inr None"
| "getProp (JArr xs) k = Inr None"

text \<open>The optional chain \<^verbatim>\<open>x?.k\<close>, where \<^verbatim>\<open>x\<close> may be \<^verbatim>\<open>undefined\<close>.\<close>

fun getProp_chain :: "json option \<Rightarrow> string \<Rightarrow> json option" where
  "getProp_chain None k = None"
| "getProp_chain (Some v) k = (case getProp v k of Inl e \<Rightarrow> None | Inr r \<Rightarrow> r)"

text \<open>\<^verbatim>\<open>x || null\<close>.\<close>

fun or_null :: "json option \<Rightarrow> json" where
  "or_null None = JNull"
| "or_null (Some v) = (if truthy v then v else JNull)"

fun js_typeof :: "json \<Rightarrow> string" where
  "js_typeof JNull = ''object''"
| "js_typeof (JBool b) = ''boolean''"
| "js_typeof (JNum n) = ''number''"
| "js_typeof (JStr s) = ''string''"
| "js_typeof (JArr xs) = ''object''"
| "js_typeof (JObj kvs) = ''object''"

text \<open>\<^verbatim>\<open>Object.keys(x)\<close> for a value other than \<^verbatim>\<open>null\<close>, and \<^verbatim>\<open>'k' in x\<close> for an
  object or an array (\<open>k\<close> not an index, not \<^verbatim>\<open>length\<close>).\<close>

definition Object_keys :: "json \<Rightarrow> string list" where
  "Object_keys x = (case Object_entries x of Inl e \<Rightarrow> [] | Inr entries \<Rightarrow> map fst entries)"

fun in_op :: "string \<Rightarrow> json \<Rightarrow> bool" where
  "in_op k (JObj kvs) = (k \<in> set (map fst kvs))"
| "in_op k x = False"

text \<open>
  \<^verbatim>\<open>a === b\<close> for two values read from two different places of one parsed document:
  primitives are compared by value, arrays and objects by identity, and two places never hold
  the same array or object.
\<close>

fun is_primitive :: "json \<Rightarrow> bool" where
  "is_primitive (JArr xs) = False"
| "is_primitive (JObj kvs) = False"
| "is_primitive x = True"

fun strict_eq_apart :: "json option \<Rightarrow> json option \<Rightarrow> bool" where
  "strict_eq_apart None None = True"
| "strict_eq_apart (Some a) (Some b) = (is_primitive a \<and> a = b)"
| "strict_eq_apart x y = False"

text \<open>\<^verbatim>\<open>xs[i]\<close>, \<^verbatim>\<open>undefined\<close> out of range.\<close>

definition nth_opt :: "'a list \<Rightarrow> nat \<Rightarrow> 'a option" where
  "nth_opt xs i = (if i < length xs then Some (xs ! i) else None)"

section \<open>Fetch helper and module validator of the LangShake crawler (src/crawlers/langshake.js)\<close>

record request =
  req_url :: string
  req_headers :: "(string \<times> string) list"
  req_timeout :: "nat option"

datatype effect =
    Get request
  | Sleep nat
  | Crawl json

datatype 'a settled =
    Returned 'a
  | ReturnedUndefined
  | Threw failure

text \<open>
  \<^verbatim>\<open>axiosGetWithRetry(url, options = {}, retries = 3, delayMs = 500)\<close>. The network answers
  the \<open>attempt\<close>-th request with an error message or a response body. The function returns
  the effects in the order they happen, and how the call settles. \<open>hdrs\<close> is
  \<^verbatim>\<open>options.headers || {}\<close>.
\<close>

function retry_loop ::
  "(nat \<Rightarrow> request \<Rightarrow> string + json) \<Rightarrow> string \<Rightarrow> (string \<times> string) list \<Rightarrow> nat \<Rightarrow> nat \<Rightarrow> nat
     \<Rightarrow> effect list \<times> json settled" where
  "retry_loop net url hdrs retries delayMs attempt =
     (if attempt \<le> retries then
        (let mergedHeaders =
               AList.update ''Pragma'' ''no-cache'' (AList.update ''Cache-Control'' ''no-cache'' hdrs);
             req = \<lparr>req_url = url, req_headers = mergedHeaders, req_timeout = Some 10000\<rparr>
         in case net attempt req of
              Inr res \<Rightarrow> ([Get req], Returned res)
            | Inl err \<Rightarrow>
                if attempt = retries then ([Get req], Threw (NetworkError err))
                else (case retry_loop net url hdrs retries delayMs (attempt + 1) of
                        (effects, out) \<Rightarrow> (Get req # Sleep delayMs # effects, out)))
      else ([], ReturnedUndefined))"
  by pat_completeness auto
termination
  by (relation "measure (\<lambda>(net, url, hdrs, retries, delayMs, attempt). Suc retries - attempt)") auto

declare retry_loop.simps [simp del]

definition axiosGetWithRetry ::
  "(nat \<Rightarrow> request \<Rightarrow> string + json) \<Rightarrow> string \<Rightarrow> effect list \<times> json settled" where
  "axiosGetWithRetry net url = retry_loop net url [] 3 500 1"

datatype module_problem =
    NotValidArrayWithChecksum
  | MissingChecksumObject
  | ChecksumMismatch
  | ErrorFetchingModule failure

record trust_entry =
  trust_path :: json
  trust_checksum :: json
  trust_calculatedChecksum :: string
  trust_checksumValid :: bool

record validated =
  v_modJson :: "json option"
  v_trust :: "trust_entry option"
  v_checksum :: "json option"
  v_error :: "module_problem option"

definition rejected_module :: "module_problem \<Rightarrow> validated" where
  "rejected_module p = \<lparr>v_modJson = None, v_trust = None, v_checksum = None, v_error = Some p\<rparr>"

text \<open>
  \<^verbatim>\<open>validateModule(modPath, baseUrl)\<close>. \<open>resolve\<close> is
  \<^verbatim>\<open>p => new URL(p, baseUrl).toString()\<close>, \<open>None\<close> when the constructor throws.
  \<open>check_module\<close> is the part after the fetch (lines 35 to 52).
\<close>

definition check_module :: "(string \<Rightarrow> string) \<Rightarrow> json \<Rightarrow> json \<Rightarrow> validated" where
  "check_module H modPath modJson =
     (case modJson of
        JArr xs \<Rightarrow>
          if length xs < 2 then rejected_module NotValidArrayWithChecksum
          else
            (let dataArr = butlast xs; checksumObj = last xs in
             if \<not> truthy checksumObj \<or> js_typeof checksumObj \<noteq> ''object''
             then rejected_module MissingChecksumObject
             else
               (case getProp_chain (Some checksumObj) ''checksum'' of
                  None \<Rightarrow> rejected_module MissingChecksumObject
                | Some checksum \<Rightarrow>
                    if \<not> truthy checksum then rejected_module MissingChecksumObject
                    else
                      (case calculateModuleChecksum H (JArr dataArr) of
                         Inl e \<Rightarrow> rejected_module (ErrorFetchingModule e)
                       | Inr calculated \<Rightarrow>
                           (let checksumValid = (checksum = JStr calculated)
                            in \<lparr>v_modJson = Some modJson,
                                v_trust = Some \<lparr>trust_path = modPath, trust_checksum = checksum,
                                                 trust_calculatedChecksum = calculated,
                                                 trust_checksumValid = checksumValid\<rparr>,
                                v_checksum = Some checksum,
                                v_error = (if checksumValid then None
                                           else Some ChecksumMismatch)\<rparr>))))
      | _ \<Rightarrow> rejected_module NotValidArrayWithChecksum)"

definition validateModule ::
  "(string \<Rightarrow> string) \<Rightarrow> (nat \<Rightarrow> request \<Rightarrow> string + json) \<Rightarrow> (json \<Rightarrow> string option) \<Rightarrow> json
     \<Rightarrow> effect list \<times> validated" where
  "validateModule H net resolve modPath =
     (case resolve modPath of
        None \<Rightarrow> ([], rejected_module (ErrorFetchingModule TypeError))
      | Some modUrl \<Rightarrow>
          (case axiosGetWithRetry net modUrl of
             (effects, Returned modJson) \<Rightarrow> (effects, check_module H modPath modJson)
           | (effects, ReturnedUndefined) \<Rightarrow> (effects, rejected_module (ErrorFetchingModule TypeError))
           | (effects, Threw err) \<Rightarrow> (effects, rejected_module (ErrorFetchingModule err))))"


section \<open>The domain benchmark (src/benchmark/compare.js)\<close>

text \<open>\<^verbatim>\<open>getUrl = obj => obj.url || obj['og:url']\<close>.\<close>

definition getUrl :: "json \<Rightarrow> failure + json option" where
  "getUrl obj =
     (case getProp obj ''url'' of
        Inl e \<Rightarrow> Inl e
      | Inr u \<Rightarrow> if truthy_opt u then Inr u else getProp obj ''og:url'')"

text \<open>
  \<^verbatim>\<open>allUrlsMatch(schemas)\<close>, called on an array. \<^verbatim>\<open>every\<close> visits the elements in
  order and stops at the first mismatch; the first element is compared with the value read
  from itself, the others with a value read from another record.
\<close>

fun every_url_is :: "json option \<Rightarrow> json list \<Rightarrow> failure + bool" where
  "every_url_is url [] = Inr True"
| "every_url_is url (obj # objs) =
     (case getUrl obj of
        Inl e \<Rightarrow> Inl e
      | Inr u \<Rightarrow> if strict_eq_apart u url then every_url_is url objs else Inr False)"

definition allUrlsMatch :: "json list \<Rightarrow> failure + bool" where
  "allUrlsMatch schemas =
     (case schemas of
        [] \<Rightarrow> Inr True
      | s0 # rest \<Rightarrow>
          (case getUrl s0 of
             Inl e \<Rightarrow> Inl e
           | Inr url \<Rightarrow> every_url_is url rest))"

text \<open>\<^verbatim>\<open>xs.filter(obj => obj.url || obj['og:url'])\<close>; the callback throws on \<^verbatim>\<open>null\<close>.\<close>

fun filter_url :: "json list \<Rightarrow> failure + json list" where
  "filter_url [] = Inr []"
| "filter_url (obj # objs) =
     (case getUrl obj of
        Inl e \<Rightarrow> Inl e
      | Inr u \<Rightarrow>
          (case filter_url objs of
             Inl e \<Rightarrow> Inl e
           | Inr keep \<Rightarrow> Inr (if truthy_opt u then obj # keep else keep)))"

text \<open>The test of lines 244 to 251 on an array payload.\<close>

definition has_checksum_tail :: "json list \<Rightarrow> bool" where
  "has_checksum_tail modJson =
     (length modJson > 1 \<and>
      js_typeof (last modJson) = ''object'' \<and>
      last modJson \<noteq> JNull \<and>
      length (Object_keys (last modJson)) = 1 \<and>
      in_op ''checksum'' (last modJson))"

text \<open>
  Lines 234 to 264: the values of \<^verbatim>\<open>langshakeSchemasArr\<close>, \<^verbatim>\<open>langshakeChecksumOriginal\<close>
  and \<^verbatim>\<open>canonicalUrl\<close> after the three-way branch on the payload, or what the branch throws.
\<close>

definition module_fields :: "json \<Rightarrow> failure + (json list \<times> json option \<times> json)" where
  "module_fields modJson =
     (case modJson of
        JArr xs \<Rightarrow>
          if has_checksum_tail xs then
            (case getProp (last xs) ''checksum'' of
               Inl e \<Rightarrow> Inl e
             | Inr langshakeChecksumOriginal \<Rightarrow>
                 (case filter_url (butlast xs) of
                    Inl e \<Rightarrow> Inl e
                  | Inr langshakeSchemasArr \<Rightarrow>
                      (case getUrl (xs ! 0) of
                         Inl e \<Rightarrow> Inl e
                       | Inr u \<Rightarrow> Inr (langshakeSchemasArr, langshakeChecksumOriginal, or_null u))))
          else
            (case filter_url xs of
               Inl e \<Rightarrow> Inl e
             | Inr langshakeSchemasArr \<Rightarrow>
                 Inr (langshakeSchemasArr, Some JNull,
                      (let u = getProp_chain (nth_opt xs 0) ''url'' in
                       if truthy_opt u then or_null u
                       else or_null (getProp_chain (nth_opt xs 0) ''og:url''))))
      | JObj kvs \<Rightarrow>
          (let u = (case getUrl modJson of Inl e \<Rightarrow> None | Inr u \<Rightarrow> u);
               c = map_of kvs ''checksum''
           in Inr (if truthy_opt u then [modJson] else [],
                   if truthy_opt c then c else Some JNull,
                   if truthy_opt u then or_null u else JNull))
      | _ \<Rightarrow> Inr ([], Some JNull, JNull))"

text \<open>
  An entry of \<^verbatim>\<open>langshakeResults\<close>: entry 0 is the manifest, entry \<open>idx + 1\<close> belongs to module
  \<open>idx\<close>. \<open>ModuleSuccess url langshake langshakeChecksumOriginal\<close> is
  \<^verbatim>\<open>{status: 'success', url, langshake, langshakeChecksumOriginal}\<close>; \<open>ModuleError url\<close> is
  \<^verbatim>\<open>{status: 'error', url}\<close>.
\<close>

datatype slot =
    ManifestSuccess string json
  | ModuleSuccess json "json list" "json option"
  | ModuleError string

type_synonym error_log = "(json \<times> failure) list"

text \<open>
  What one module task does once its GET has settled (lines 233 to 281): the entry it
  writes and what it hands to \<^verbatim>\<open>recordError\<close>.
\<close>

definition process_module :: "string \<Rightarrow> json \<Rightarrow> slot \<times> error_log" where
  "process_module modUrl modJson =
     (if js_typeof modJson \<noteq> ''object'' \<or> modJson = JNull
      then (ModuleError modUrl, [(JStr modUrl, MalformedSchemaObject (js_typeof modJson))])
      else
        (case module_fields modJson of
           Inl e \<Rightarrow> (ModuleError modUrl, [(JStr modUrl, e)])
         | Inr (langshakeSchemasArr, langshakeChecksumOriginal, canonicalUrl) \<Rightarrow>
             (case allUrlsMatch langshakeSchemasArr of
                Inl e \<Rightarrow> (ModuleError modUrl, [(JStr modUrl, e)])
              | Inr same \<Rightarrow>
                  if \<not> same then (ModuleError modUrl, [(JStr modUrl, DifferingUrlFields)])
                  else (ModuleSuccess canonicalUrl langshakeSchemasArr langshakeChecksumOriginal,
                        []))))"

definition module_task :: "string \<Rightarrow> string + json \<Rightarrow> slot \<times> error_log" where
  "module_task modUrl response =
     (case response of
        Inl msg \<Rightarrow> (ModuleError modUrl, [(JStr modUrl, NetworkError msg)])
      | Inr modJson \<Rightarrow> process_module modUrl modJson)"

text \<open>
  The world outside the coordinator. \<open>manifestUrl\<close> is
  \<^verbatim>\<open>new URL('/.well-known/llm.json', domainRoot).toString()\<close> and \<open>resolveUrl\<close> is
  \<^verbatim>\<open>p => new URL(p, domainRoot).toString()\<close>, \<open>None\<close> when the constructor throws.
  \<open>getManifest k\<close> answers the \<open>k\<close>-th GET of the manifest (the coordinator fetches it twice),
  \<open>getModule idx url\<close> the GET of module \<open>idx\<close>, \<open>crawlPage idx url\<close> the call
  \<^verbatim>\<open>runTraditionalCrawler(url)\<close> for page \<open>idx\<close> (its \<^verbatim>\<open>result\<close> field, or the error).
\<close>

record world =
  manifestUrl :: "string option"
  resolveUrl :: "json \<Rightarrow> string option"
  getManifest :: "nat \<Rightarrow> string + json"
  getModule :: "nat \<Rightarrow> string \<Rightarrow> string + json"
  crawlPage :: "nat \<Rightarrow> json \<Rightarrow> string + json"

text \<open>The loop \<^verbatim>\<open>for (const modPath of llmJson.modules) { try { moduleUrls.push(...) } catch {} }\<close>.\<close>

fun build_moduleUrls :: "(json \<Rightarrow> string option) \<Rightarrow> json list \<Rightarrow> string list" where
  "build_moduleUrls resolve [] = []"
| "build_moduleUrls resolve (modPath # rest) =
     (case resolve modPath of
        None \<Rightarrow> build_moduleUrls resolve rest
      | Some modUrl \<Rightarrow> modUrl # build_moduleUrls resolve rest)"

text \<open>\<^verbatim>\<open>arr[i] = v\<close> on a JavaScript array: writing past the end extends it, leaving holes.\<close>

definition js_assign :: "'a option list \<Rightarrow> nat \<Rightarrow> 'a \<Rightarrow> 'a option list" where
  "js_assign arr i v =
     (if i < length arr then arr[i := Some v]
      else arr @ replicate (i - length arr) None @ [Some v])"

text \<open>
  Phase 1. The tasks run under \<^verbatim>\<open>pLimit(concurrency)\<close>; each one writes
  \<^verbatim>\<open>langshakeResults[idx + 1]\<close> and records its error when its own GET has settled.
  \<open>order\<close> lists the module indices in the order in which the tasks complete.
\<close>

definition langshake_step ::
  "world \<Rightarrow> string list \<Rightarrow> nat \<Rightarrow> slot option list \<times> error_log \<Rightarrow> slot option list \<times> error_log" where
  "langshake_step w moduleUrls idx state =
     (case state of (langshakeResults, errors) \<Rightarrow>
        (case nth_opt moduleUrls idx of
           Some modUrl \<Rightarrow>
             (case module_task modUrl (getModule w idx modUrl) of
                (entry, logged) \<Rightarrow> (js_assign langshakeResults (idx + 1) entry, errors @ logged))
         | None \<Rightarrow> (langshakeResults, errors)))"

definition langshake_phase ::
  "world \<Rightarrow> string list \<Rightarrow> nat list \<Rightarrow> slot option list \<Rightarrow> slot option list \<times> error_log" where
  "langshake_phase w moduleUrls order langshakeResults0 =
     fold (langshake_step w moduleUrls) order (langshakeResults0, [])"


text \<open>
  \<^verbatim>\<open>mainEntityUrls = langshakeResults.slice(1).map(r => ({ url: r.url, module: r.langshake }))\<close>;
  \<^verbatim>\<open>map\<close> keeps the holes of a sparse array.
\<close>

fun slot_url :: "slot \<Rightarrow> json" where
  "slot_url (ManifestSuccess url data) = JStr url"
| "slot_url (ModuleSuccess url langshake original) = url"
| "slot_url (ModuleError url) = JStr url"

fun slot_langshake :: "slot \<Rightarrow> json list option" where
  "slot_langshake (ManifestSuccess url data) = None"
| "slot_langshake (ModuleSuccess url langshake original) = Some langshake"
| "slot_langshake (ModuleError url) = None"

fun slot_checksumOriginal :: "slot \<Rightarrow> json option" where
  "slot_checksumOriginal (ManifestSuccess url data) = None"
| "slot_checksumOriginal (ModuleSuccess url langshake original) = original"
| "slot_checksumOriginal (ModuleError url) = None"

definition mainEntityUrls_of :: "slot option list \<Rightarrow> (json \<times> json list option) option list" where
  "mainEntityUrls_of langshakeResults =
     map (map_option (\<lambda>r. (slot_url r, slot_langshake r))) (drop 1 langshakeResults)"

text \<open>
  Phase 2. An entry of \<^verbatim>\<open>traditionalResults\<close> is
  \<^verbatim>\<open>{status: 'success', url, traditional}\<close> or \<^verbatim>\<open>{status: 'error', url}\<close>.
\<close>

datatype tslot =
    TraditionalSuccess json "json list"
  | TraditionalError json

definition traditional_task :: "json \<Rightarrow> string + json \<Rightarrow> tslot \<times> error_log" where
  "traditional_task url response =
     (case response of
        Inl msg \<Rightarrow> (TraditionalError url, [(url, NetworkError msg)])
      | Inr traditionalArr \<Rightarrow>
          (let traditionalSchemasArr = (case traditionalArr of JArr xs \<Rightarrow> xs | _ \<Rightarrow> []) in
           if length traditionalSchemasArr > 0 then
             (case getProp (last traditionalSchemasArr) ''checksum'' of
                Inl e \<Rightarrow> (TraditionalError url, [(url, e)])
              | Inr c \<Rightarrow>
                  (TraditionalSuccess url
                     (if truthy_opt c then butlast traditionalSchemasArr else traditionalSchemasArr),
                   []))
           else (TraditionalSuccess url traditionalSchemasArr, [])))"

definition traditional_step ::
  "world \<Rightarrow> (json \<times> json list option) option list \<Rightarrow> nat \<Rightarrow> tslot option list \<times> error_log
     \<Rightarrow> tslot option list \<times> error_log" where
  "traditional_step w mainEntityUrls idx state =
     (case state of (traditionalResults, errors) \<Rightarrow>
        (case nth_opt mainEntityUrls idx of
           Some (Some (url, module)) \<Rightarrow>
             (case traditional_task url (crawlPage w idx url) of
                (entry, logged) \<Rightarrow> (js_assign traditionalResults idx entry, errors @ logged))
         | _ \<Rightarrow> (traditionalResults, errors)))"

definition traditional_phase ::
  "world \<Rightarrow> (json \<times> json list option) option list \<Rightarrow> nat list \<Rightarrow> tslot option list \<times> error_log" where
  "traditional_phase w mainEntityUrls order =
     fold (traditional_step w mainEntityUrls) order ([], [])"

fun tslot_traditional :: "tslot \<Rightarrow> json list option" where
  "tslot_traditional (TraditionalSuccess url traditional) = Some traditional"
| "tslot_traditional (TraditionalError url) = None"

text \<open>
  One element of \<^verbatim>\<open>pages\<close> (lines 382 to 417; the shallow \<^verbatim>\<open>diff\<close> hint is left out).
\<close>

record page =
  page_url :: json
  page_langshake :: "json list"
  page_traditional :: "json list"
  schemasMatch :: bool
  langshakeChecksum :: string
  langshakeChecksumOriginal :: json
  langshakeChecksumValid :: "bool option"
  traditionalChecksum :: string
  traditionalChecksumMatchesLangshake :: bool

definition make_page ::
  "(string \<Rightarrow> string) \<Rightarrow> slot option list \<Rightarrow> tslot option list \<Rightarrow> nat \<Rightarrow> json \<Rightarrow> failure + page" where
  "make_page H langshakeResults traditionalResults idx url =
     (let langshake =
            (case nth_opt langshakeResults (idx + 1) of
               Some (Some r) \<Rightarrow> (case slot_langshake r of Some l \<Rightarrow> l | None \<Rightarrow> [])
             | _ \<Rightarrow> []);
          traditional =
            (case nth_opt traditionalResults idx of
               Some (Some t) \<Rightarrow> (case tslot_traditional t of Some l \<Rightarrow> l | None \<Rightarrow> [])
             | _ \<Rightarrow> [])
      in case calculateModuleChecksum H (JArr langshake) of
           Inl e \<Rightarrow> Inl e
         | Inr lsChecksum \<Rightarrow>
             (case calculateModuleChecksum H (JArr traditional) of
                Inl e \<Rightarrow> Inl e
              | Inr trChecksum \<Rightarrow>
                  (let original =
                         or_null (case nth_opt langshakeResults (idx + 1) of
                                    Some (Some r) \<Rightarrow> slot_checksumOriginal r
                                  | _ \<Rightarrow> None)
                   in Inr \<lparr>page_url = url,
                           page_langshake = langshake,
                           page_traditional = traditional,
                           schemasMatch =
                             (stableStringify (JArr langshake) = stableStringify (JArr traditional)),
                           langshakeChecksum = lsChecksum,
                           langshakeChecksumOriginal = original,
                           langshakeChecksumValid =
                             (if truthy original then Some (JStr lsChecksum = original) else None),
                           traditionalChecksum = trChecksum,
                           traditionalChecksumMatchesLangshake = (trChecksum = lsChecksum)\<rparr>)))"

fun make_pages ::
  "(string \<Rightarrow> string) \<Rightarrow> slot option list \<Rightarrow> tslot option list \<Rightarrow> nat
     \<Rightarrow> (json \<times> json list option) option list \<Rightarrow> failure + page option list" where
  "make_pages H langshakeResults traditionalResults idx [] = Inr []"
| "make_pages H langshakeResults traditionalResults idx (None # rest) =
     (case make_pages H langshakeResults traditionalResults (idx + 1) rest of
        Inl e \<Rightarrow> Inl e
      | Inr pages \<Rightarrow> Inr (None # pages))"
| "make_pages H langshakeResults traditionalResults idx (Some (url, module) # rest) =
     (case make_page H langshakeResults traditionalResults idx url of
        Inl e \<Rightarrow> Inl e
      | Inr p \<Rightarrow>
          (case make_pages H langshakeResults traditionalResults (idx + 1) rest of
             Inl e \<Rightarrow> Inl e
           | Inr pages \<Rightarrow> Inr (Some p # pages)))"

text \<open>The summary (lines 418 to 437). \<open>present\<close> drops the holes, as the array methods do.\<close>

record summary =
  totalPages :: nat
  allMatch :: bool
  merkleRootLangshake :: string
  merkleRootTraditional :: string
  merkleRootLlmJson :: json
  merkleRootLangshakeValid :: bool
  merkleRootTraditionalValid :: bool
  merkleRootsMatch :: bool

fun present :: "'a option list \<Rightarrow> 'a list" where
  "present [] = []"
| "present (None # xs) = present xs"
| "present (Some x # xs) = x # present xs"

definition summarize :: "(string \<Rightarrow> string) \<Rightarrow> page option list \<Rightarrow> json \<Rightarrow> summary" where
  "summarize H pages llmMerkleRoot =
     (let langshakeChecksums = map langshakeChecksum (present pages);
          traditionalChecksums = map traditionalChecksum (present pages);
          rootLangshake = calculateMerkleRoot H (filter (\<lambda>c. c \<noteq> []) langshakeChecksums);
          rootTraditional = calculateMerkleRoot H (filter (\<lambda>c. c \<noteq> []) traditionalChecksums);
          merkleRootLlmJson = llmMerkleRoot
      in \<lparr>totalPages = length pages,
          allMatch = list_all schemasMatch (present pages),
          merkleRootLangshake = rootLangshake,
          merkleRootTraditional = rootTraditional,
          merkleRootLlmJson = merkleRootLlmJson,
          merkleRootLangshakeValid = (JStr rootLangshake = merkleRootLlmJson),
          merkleRootTraditionalValid = (JStr rootTraditional = merkleRootLlmJson),
          merkleRootsMatch =
            (rootLangshake = rootTraditional \<and> JStr rootLangshake = merkleRootLlmJson)\<rparr>)"

text \<open>
  What \<^verbatim>\<open>runDomainBenchmark\<close> settles with: a rejected promise, the object
  \<^verbatim>\<open>{error}\<close> (with the errors of the LangShake metrics when the second manifest GET
  failed), or the full result. \<open>r_langshakeResults\<close> is the internal array the pages are built
  from; the two error lists are \<^verbatim>\<open>metrics.langshake.errors.details\<close> and
  \<^verbatim>\<open>metrics.traditional.errors.details\<close>.
\<close>

record benchmark_result =
  r_pages :: "page option list"
  r_summary :: summary
  r_langshakeResults :: "slot option list"
  r_langshakeErrors :: error_log
  r_traditionalErrors :: error_log

datatype outcome =
    Rejected failure
  | ErrorResult string "error_log option"
  | Complete benchmark_result

definition no_cache :: "(string \<times> string) list" where
  "no_cache = [(''Cache-Control'', ''no-cache''), (''Pragma'', ''no-cache'')]"

text \<open>The request of \<^verbatim>\<open>axios.get(url, { headers: {'Cache-Control': 'no-cache', 'Pragma': 'no-cache'} })\<close>.\<close>

definition plain_get :: "string \<Rightarrow> effect" where
  "plain_get url = Get \<lparr>req_url = url, req_headers = no_cache, req_timeout = None\<rparr>"

definition msg_not_found :: string where
  "msg_not_found = ''This website is not LangShake ready: .well-known/llm.json not found.''"

definition msg_no_modules :: string where
  "msg_no_modules = ''This website is not LangShake ready: no modules found in .well-known/llm.json.''"

definition msg_empty :: string where
  "msg_empty = ''The modules array in .well-known/llm.json is empty. Merkle root cannot be confirmed.''"

definition msg_failed :: string where
  "msg_failed = ''Failed to fetch .well-known/llm.json''"

text \<open>
  The part of \<^verbatim>\<open>runDomainBenchmark\<close> from line 116 on, entered once the first manifest has
  passed the checks of lines 93 to 108. The requests are listed in the order in which they
  are issued (the limiter starts the tasks in index order).
\<close>

definition run_phases ::
  "(string \<Rightarrow> string) \<Rightarrow> world \<Rightarrow> string \<Rightarrow> json \<Rightarrow> nat list \<Rightarrow> nat list \<Rightarrow> effect list \<times> outcome" where
  "run_phases H w llmUrl llmMerkleRoot order1 order2 =
     (case getManifest w 1 of
        Inl msg \<Rightarrow>
          ([plain_get llmUrl],
           ErrorResult msg_failed (Some [(JStr ''/.well-known/llm.json'', NetworkError msg)]))
      | Inr llmJson \<Rightarrow>
          (case getProp llmJson ''modules'' of
             Inl e \<Rightarrow>
               ([plain_get llmUrl],
                ErrorResult msg_failed (Some [(JStr ''/.well-known/llm.json'', e)]))
           | Inr modules \<Rightarrow>
               (let moduleUrls =
                      (case modules of
                         Some (JArr paths) \<Rightarrow> build_moduleUrls (resolveUrl w) paths
                       | _ \<Rightarrow> []);
                    phase1 = langshake_phase w moduleUrls order1 [Some (ManifestSuccess llmUrl llmJson)];
                    langshakeResults = fst phase1;
                    mainEntityUrls = mainEntityUrls_of langshakeResults;
                    phase2 = traditional_phase w mainEntityUrls order2;
                    traditionalResults = fst phase2;
                    effects = plain_get llmUrl # map plain_get moduleUrls
                              @ map (\<lambda>(url, module). Crawl url) (present mainEntityUrls)
                in case make_pages H langshakeResults traditionalResults 0 mainEntityUrls of
                     Inl e \<Rightarrow> (effects, Rejected e)
                   | Inr pages \<Rightarrow>
                       (effects,
                        Complete \<lparr>r_pages = pages,
                                  r_summary = summarize H pages llmMerkleRoot,
                                  r_langshakeResults = langshakeResults,
                                  r_langshakeErrors = snd phase1,
                                  r_traditionalErrors = snd phase2\<rparr>))))"

text \<open>
  \<^verbatim>\<open>runDomainBenchmark(domainRoot, options)\<close>. \<open>order1\<close> and \<open>order2\<close> are the completion
  orders of the two phases. The list \<^verbatim>\<open>moduleUrls\<close> built at lines 109 to 114 is emptied
  and rebuilt from the second manifest GET before anything reads it, so it is not computed
  here.
\<close>

definition runDomainBenchmark ::
  "(string \<Rightarrow> string) \<Rightarrow> world \<Rightarrow> nat list \<Rightarrow> nat list \<Rightarrow> effect list \<times> outcome" where
  "runDomainBenchmark H w order1 order2 =
     (case manifestUrl w of
        None \<Rightarrow> ([], ErrorResult msg_not_found None)
      | Some llmUrl \<Rightarrow>
          (case getManifest w 0 of
             Inl msg \<Rightarrow> ([plain_get llmUrl], ErrorResult msg_not_found None)
           | Inr llmJson \<Rightarrow>
               (let llmMerkleRoot =
                      or_null (getProp_chain (getProp_chain (Some llmJson) ''verification'')
                                 ''merkleRoot'')
                in case getProp llmJson ''modules'' of
                     Inl e \<Rightarrow> ([plain_get llmUrl], Rejected e)
                   | Inr modules \<Rightarrow>
                       (case modules of
                          Some (JArr paths) \<Rightarrow>
                            if length paths = 0 then ([plain_get llmUrl], ErrorResult msg_empty None)
                            else (case run_phases H w llmUrl llmMerkleRoot order1 order2 of
                                    (effects, out) \<Rightarrow> (plain_get llmUrl # effects, out))
                        | _ \<Rightarrow> ([plain_get llmUrl], ErrorResult msg_no_modules None)))))"

section \<open>Notions used in the statements\<close>

text \<open>
  The specification's wording of one level: adjacent leaves are hashed in pairs, a dangling
  last leaf is paired with itself.
\<close>

fun hash_pairs :: "(string \<Rightarrow> string) \<Rightarrow> string list \<Rightarrow> string list" where
  "hash_pairs H [] = []"
| "hash_pairs H [a] = [H (a @ a)]"
| "hash_pairs H (a # b # rest) = H (a @ b) # hash_pairs H rest"


text \<open>Reading a decimal string back (\<open>show_nat\<close> is injective).\<close>

definition digit_val :: "char \<Rightarrow> nat" where
  "digit_val c = of_char c - 48"

definition read_nat :: "string \<Rightarrow> nat" where
  "read_nat s = foldl (\<lambda>acc c. acc * 10 + digit_val c) 0 s"


text \<open>A sparse array read at any index; a hole and an index past the end both give \<open>None\<close>.\<close>

definition sget :: "'a option list \<Rightarrow> nat \<Rightarrow> 'a option" where
  "sget arr j = (if j < length arr then arr ! j else None)"


text \<open>The \<^verbatim>\<open>status\<close> field of an entry of \<^verbatim>\<open>langshakeResults\<close>.\<close>

fun slot_status :: "slot \<Rightarrow> string" where
  "slot_status (ManifestSuccess url data) = ''success''"
| "slot_status (ModuleSuccess url langshake original) = ''success''"
| "slot_status (ModuleError url) = ''error''"


text \<open>The entry that module \<open>idx\<close> ends with, whatever the completion order.\<close>

definition module_entry :: "world \<Rightarrow> string list \<Rightarrow> nat \<Rightarrow> slot" where
  "module_entry w moduleUrls idx =
     fst (module_task (moduleUrls ! idx) (getModule w idx (moduleUrls ! idx)))"


text \<open>
  The URL handed to the traditional crawler for page \<open>idx\<close>, and the entry that its task
  ends with.
\<close>

definition page_entry_url :: "world \<Rightarrow> string list \<Rightarrow> nat \<Rightarrow> json" where
  "page_entry_url w moduleUrls idx = slot_url (module_entry w moduleUrls idx)"

definition traditional_entry :: "world \<Rightarrow> string list \<Rightarrow> nat \<Rightarrow> tslot" where
  "traditional_entry w moduleUrls idx =
     fst (traditional_task (page_entry_url w moduleUrls idx)
            (crawlPage w idx (page_entry_url w moduleUrls idx)))"


text \<open>The string hashed for an array of records (shown below to be \<open>moduleJsonStr\<close>).\<close>

definition array_jsonStr :: "json list \<Rightarrow> string" where
  "array_jsonStr xs =
     ''{'' @ join '',''
        (map (\<lambda>i. JSON_stringify_string (show_nat i) @ '':'' @ stableStringify (xs ! i))
             (sort_key show_nat [0..<length xs])) @ ''}''"


text \<open>
  The request that \<^verbatim>\<open>axiosGetWithRetry\<close> sends when called without options, and the test
  that an effect is a request without timeout and not a pause between attempts.
\<close>

definition retry_request :: "string \<Rightarrow> request" where
  "retry_request url =
     \<lparr>req_url = url,
      req_headers = [(''Cache-Control'', ''no-cache''), (''Pragma'', ''no-cache'')],
      req_timeout = Some 10000\<rparr>"


fun unretried :: "effect \<Rightarrow> bool" where
  "unretried (Get r) = (req_timeout r = None \<and> req_headers r = no_cache)"
| "unretried (Sleep d) = False"
| "unretried (Crawl url) = True"


text \<open>
  For an array payload: the elements that stand for records, the subject URL of a record
  (\<^verbatim>\<open>getUrl\<close>, \<open>None\<close> for \<^verbatim>\<open>undefined\<close>), whether a record has one, the declared
  checksum and the canonical URL that the coordinator derives.
\<close>

definition records_of :: "json list \<Rightarrow> json list" where
  "records_of xs = (if has_checksum_tail xs then butlast xs else xs)"

definition subject_url :: "json \<Rightarrow> json option" where
  "subject_url x = (case getUrl x of Inl e \<Rightarrow> None | Inr u \<Rightarrow> u)"

definition has_subject_url :: "json \<Rightarrow> bool" where
  "has_subject_url x = truthy_opt (subject_url x)"


definition declared_checksum :: "json list \<Rightarrow> json option" where
  "declared_checksum xs =
     (if has_checksum_tail xs then getProp_chain (Some (last xs)) ''checksum'' else Some JNull)"

definition canonical_of :: "json list \<Rightarrow> json" where
  "canonical_of xs = (case xs of [] \<Rightarrow> JNull | x # rest \<Rightarrow> or_null (subject_url x))"


text \<open>
  Records agree on their subject URL when every record after the first carries a primitive
  subject URL equal to the one of the first. A fetched payload is usable when it is an
  object, or an array without \<^verbatim>\<open>null\<close> element whose records that have a subject URL
  agree on it.
\<close>

definition same_subject_url :: "json list \<Rightarrow> bool" where
  "same_subject_url rs =
     (case rs of
        [] \<Rightarrow> True
      | s0 # rest \<Rightarrow> list_all (\<lambda>x. strict_eq_apart (subject_url x) (subject_url s0)) rest)"

definition usable_payload :: "json \<Rightarrow> bool" where
  "usable_payload modJson =
     (case modJson of
        JObj kvs \<Rightarrow> True
      | JArr xs \<Rightarrow> JNull \<notin> set xs \<and> same_subject_url (filter has_subject_url (records_of xs))
      | _ \<Rightarrow> False)"


text \<open>The full result of a run that completed.\<close>

fun completed :: "outcome \<Rightarrow> benchmark_result option" where
  "completed (Complete res) = Some res"
| "completed out = None"

text \<open>
  Scenarios in the style of the test suite (tests/benchmark/compare.test.js): a manifest
  document that is the JSON value \<^verbatim>\<open>null\<close>; one module on which both pipelines agree
  while the manifest declares another root; three modules of which the second cannot be
  fetched.
\<close>

definition example_resolve :: "json \<Rightarrow> string option" where
  "example_resolve p = (case p of JStr s \<Rightarrow> Some (''https://example.com'' @ s) | _ \<Rightarrow> None)"

definition null_manifest_world :: world where
  "null_manifest_world =
     \<lparr>manifestUrl = Some ''https://example.com/.well-known/llm.json'',
      resolveUrl = example_resolve,
      getManifest = (\<lambda>k. Inr JNull),
      getModule = (\<lambda>idx url. Inl ''unreachable''),
      crawlPage = (\<lambda>idx url. Inl ''unreachable'')\<rparr>"


definition agreeing_world :: world where
  "agreeing_world =
     \<lparr>manifestUrl = Some ''https://example.com/.well-known/llm.json'',
      resolveUrl = example_resolve,
      getManifest = (\<lambda>k. Inr (JObj [(''modules'', JArr [JStr ''/langshake/page.json'']),
                                   (''verification'', JObj [(''merkleRoot'', JStr ''irrelevant'')])])),
      getModule = (\<lambda>idx url. Inr (JArr [JObj [(''@type'', JStr ''Article''),
                                             (''url'', JStr ''https://example.com/page'')],
                                       JObj [(''checksum'', JStr ''irrelevant'')]])),
      crawlPage = (\<lambda>idx url. Inr (JArr [JObj [(''url'', JStr ''https://example.com/page''),
                                             (''@type'', JStr ''Article'')]]))\<rparr>"

definition partial_world :: world where
  "partial_world =
     \<lparr>manifestUrl = Some ''https://example.com/.well-known/llm.json'',
      resolveUrl = example_resolve,
      getManifest = (\<lambda>k. Inr (JObj [(''modules'', JArr [JStr ''/a.json'', JStr ''/b.json'', JStr ''/c.json'']),
                                   (''verification'', JObj [(''merkleRoot'', JStr ''abc123'')])])),
      getModule = (\<lambda>idx url. if idx = 1 then Inl ''404 Not Found''
                               else Inr (JArr [JObj [(''url'', JStr url)],
                                               JObj [(''checksum'', JStr ''irrelevant'')]])),
      crawlPage = (\<lambda>idx url. Inr (JArr [JObj [(''url'', url)]]))\<rparr>"

text \<open>
  Three modules again: the second cannot be fetched, and the third is fetched but its payload
  is the JSON string \<^verbatim>\<open>"oops"\<close>.
\<close>

definition string_payload_world :: world where
  "string_payload_world =
     \<lparr>manifestUrl = Some ''https://example.com/.well-known/llm.json'',
      resolveUrl = example_resolve,
      getManifest = (\<lambda>k. Inr (JObj [(''modules'', JArr [JStr ''/a.json'', JStr ''/b.json'', JStr ''/c.json'']),
                                   (''verification'', JObj [(''merkleRoot'', JStr ''abc123'')])])),
      getModule = (\<lambda>idx url. if idx = 1 then Inl ''404 Not Found''
                               else if idx = 2 then Inr (JStr ''oops'')
                               else Inr (JArr [JObj [(''url'', JStr url)],
                                               JObj [(''checksum'', JStr ''irrelevant'')]])),
      crawlPage = (\<lambda>idx url. Inr (JArr [JObj [(''url'', url)]]))\<rparr>"


subsection \<open>Records that differ only in the order of their keys\<close>


lemma size_pair_lt:
  "(k, v) \<in> set kvs \<Longrightarrow> size v < Suc (size_list (\<lambda>x. Suc (size (snd x))) kvs)"
  by (induction kvs) auto

lemma size_snd_lt [termination_simp]:
  "v \<in> snd ` set kvs \<Longrightarrow> size v < Suc (size_list (\<lambda>x. Suc (size (snd x))) kvs)"
  using size_pair_lt by fastforce


subsection \<open>Reading the canonical serialisation back\<close>








definition entry :: "(string \<times> json) list \<Rightarrow> string \<Rightarrow> string" where
  "entry kvs key = JSON_stringify_string key @ '':'' @
      (case map_of kvs key of Some v \<Rightarrow> stableStringify v | None \<Rightarrow> ''undefined'')"

section \<open>The Merkle root\<close>

lemma merkle_for_hash_pairs:
  "merkle_for H level i nxt = nxt @ hash_pairs H (drop i level)"
proof (induction H level i nxt rule: merkle_for.induct)
  case (1 H level i nxt)
  show ?case
  proof (cases "i < length level")
    case False
    then show ?thesis by (subst merkle_for.simps) simp
  next
    case True
    note lt = this
    show ?thesis
    proof (cases "i + 1 < length level")
      case True
      have d: "drop i level = level ! i # level ! (i + 1) # drop (i + 2) level"
        using True by (simp add: Cons_nth_drop_Suc)
      show ?thesis
        using "1.IH"(1)[OF lt True] lt True by (subst merkle_for.simps) (simp add: d)
    next
      case False
      have d: "drop i level = [level ! i]"
        using lt False by (metis Cons_nth_drop_Suc Suc_eq_plus1 drop_all not_less)
      show ?thesis
        using "1.IH"(2)[OF lt False] lt False by (subst merkle_for.simps) (simp add: d)
    qed
  qed
qed

lemma hash_pairs_nonempty: "xs \<noteq> [] \<Longrightarrow> hash_pairs H xs \<noteq> []"
  by (cases "(H, xs)" rule: hash_pairs.cases) auto

lemma length_hash_pairs: "length (hash_pairs H xs) = (length xs + 1) div 2"
  by (induction H xs rule: hash_pairs.induct) auto

lemma merkle_while_single:
  "xs \<noteq> [] \<Longrightarrow> length (merkle_while H xs) = 1"
proof (induction H xs rule: merkle_while.induct)
  case (1 H level)
  show ?case
  proof (cases "length level > 1")
    case True
    have "merkle_for H level 0 [] \<noteq> []"
      using "1.prems" by (simp add: merkle_for_hash_pairs hash_pairs_nonempty)
    then show ?thesis using "1.IH"[OF True] True by (subst merkle_while.simps) simp
  next
    case False
    then have "length level = 1" using "1.prems" by (cases level) auto
    then show ?thesis by (subst merkle_while.simps) simp
  qed
qed

text \<open>
  Claim C1. \<^verbatim>\<open>calculateMerkleRoot\<close> returns the empty string on the empty list and the
  single leaf on a one-element list. On two or more leaves it returns the root of the next
  level, and the next level computed by the source's index loop is exactly the list in which
  each adjacent pair is replaced by the hash of the concatenation of the two texts, a dangling
  last leaf being paired with itself; that level has half as many entries (rounded up), and
  the loop ends with exactly one hash. The result is a function of the leaf list and of the
  hash alone.
\<close>

theorem calculateMerkleRoot_levels:
  "calculateMerkleRoot H [] = ''''
   \<and> calculateMerkleRoot H [h] = h
   \<and> calculateMerkleRoot H (a # b # rest) = calculateMerkleRoot H (hash_pairs H (a # b # rest))
   \<and> merkle_for H level 0 [] = hash_pairs H level
   \<and> length (hash_pairs H level) = (length level + 1) div 2
   \<and> length (merkle_while H (a # rest)) = 1"
proof -
  have 1: "calculateMerkleRoot H [] = ''''" by (simp add: calculateMerkleRoot_def)
  have 2: "calculateMerkleRoot H [h] = h"
    by (simp add: calculateMerkleRoot_def merkle_while.simps[of H "[h]"])
  have "merkle_while H (a # b # rest) = merkle_while H (hash_pairs H (a # b # rest))"
    by (subst merkle_while.simps) (simp add: merkle_for_hash_pairs)
  then have 3: "calculateMerkleRoot H (a # b # rest)
                = calculateMerkleRoot H (hash_pairs H (a # b # rest))"
    by (simp add: calculateMerkleRoot_def)
  have 4: "merkle_for H level 0 [] = hash_pairs H level" by (simp add: merkle_for_hash_pairs)
  have 5: "length (merkle_while H (a # rest)) = 1" by (rule merkle_while_single) simp
  show ?thesis using 1 2 3 4 5 length_hash_pairs by blast
qed

section \<open>The module checksum\<close>

lemma digit_cases:
  "d < 10 \<Longrightarrow> d = 0 \<or> d = 1 \<or> d = 2 \<or> d = 3 \<or> d = 4 \<or> d = 5 \<or> d = 6 \<or> d = 7 \<or> d = 8 \<or> d = (9::nat)"
  by arith

lemma digit_val_digit_char: "d < 10 \<Longrightarrow> digit_val (digit_char d) = d"
  using digit_cases[of d] by (auto simp: digit_val_def digit_char_def)

lemma digit_char_in: "d < 10 \<Longrightarrow> digit_char d \<in> set ''0123456789''"
  using digit_cases[of d] by (auto simp: digit_char_def)

lemma read_show_nat: "read_nat (show_nat n) = n"
proof (induction n rule: show_nat.induct)
  case (1 n)
  show ?case
  proof (cases "n < 10")
    case True
    then show ?thesis by (simp add: read_nat_def digit_val_digit_char)
  next
    case False
    then have "read_nat (show_nat n)
               = read_nat (show_nat (n div 10)) * 10 + digit_val (digit_char (n mod 10))"
      by (subst show_nat.simps) (simp add: read_nat_def)
    then show ?thesis using "1.IH"[OF False] by (simp add: digit_val_digit_char)
  qed
qed

lemma inj_show_nat: "inj show_nat"
  by (rule inj_on_inverseI[where g = read_nat]) (rule read_show_nat)

lemma show_nat_digits: "set (show_nat n) \<subseteq> set ''0123456789''"
proof (induction n rule: show_nat.induct)
  case (1 n)
  show ?case
  proof (cases "n < 10")
    case True
    then show ?thesis using digit_char_in[of n] by (subst show_nat.simps) simp
  next
    case False
    have "n mod 10 < 10" by simp
    then show ?thesis using "1.IH"[OF False] digit_char_in[of "n mod 10"] False
      by (subst show_nat.simps) simp
  qed
qed

declare show_nat.simps [simp del]

lemma show_nat_not_checksum: "show_nat n \<noteq> ''checksum''"
proof
  assume "show_nat n = ''checksum''"
  then have "CHR ''c'' \<in> set (show_nat n)" by simp
  then show False using show_nat_digits[of n] by auto
qed

lemma sort_map_key: "sort (map f xs) = map f (sort_key f xs)"
  by (rule properties_for_sort) (simp_all add: sorted_sort_key)

lemma map_of_index_entries:
  assumes "i < length xs"
  shows "map_of (zip (map show_nat [0..<length xs]) xs) (show_nat i) = Some (xs ! i)"
proof -
  have d: "distinct (map show_nat [0..<length xs])"
    by (simp add: distinct_map inj_on_subset[OF inj_show_nat])
  have "map_of (zip (map show_nat [0..<length xs]) xs) (map show_nat [0..<length xs] ! i)
        = Some (xs ! i)"
    by (rule map_of_zip_nth) (use assms d in simp_all)
  then show ?thesis using assms by simp
qed

lemma moduleJsonStr_array:
  "moduleJsonStr (JArr xs) =
     Inr (''{'' @ join '',''
            (map (\<lambda>i. JSON_stringify_string (show_nat i) @ '':'' @ stableStringify (xs ! i))
                 (sort_key show_nat [0..<length xs])) @ ''}'')"
proof -
  let ?ks = "map show_nat [0..<length xs]"
  have f: "filter (\<lambda>(k, v). k \<noteq> ''checksum'') (zip ?ks xs) = zip ?ks xs"
    by (rule filter_True) (auto simp: show_nat_not_checksum[symmetric] show_nat_not_checksum dest!: set_zip_leftD)
  have k: "map fst (zip ?ks xs) = ?ks" by simp
  have s: "sort ?ks = map show_nat (sort_key show_nat [0..<length xs])"
    by (rule sort_map_key)
  have m: "map (\<lambda>key. JSON_stringify_string key @ '':'' @
                 (case map_of (zip ?ks xs) key of Some v \<Rightarrow> stableStringify v
                  | None \<Rightarrow> ''undefined''))
               (map show_nat (sort_key show_nat [0..<length xs]))
           = map (\<lambda>i. JSON_stringify_string (show_nat i) @ '':'' @ stableStringify (xs ! i))
               (sort_key show_nat [0..<length xs])"
    by (simp add: map_of_index_entries)
  show ?thesis
    by (simp only: moduleJsonStr_def Object_entries.simps sum.case f stableStringify.simps k s m)
qed

lemma sort_key_11: "sort_key show_nat [0..<11] = [0, 1, 10, 2, 3, 4, 5, 6, 7, 8, 9]"
  by code_simp

lemma moduleJsonStr_not_array: "moduleJsonStr (JArr xs) \<noteq> Inr (stableStringify (JArr xs))"
  by (simp add: moduleJsonStr_array)

text \<open>
  Claim C9. \<^verbatim>\<open>calculateModuleChecksum\<close> runs \<^verbatim>\<open>Object.entries\<close> on its argument, so
  an array of records is hashed as the object whose keys are the decimal index strings: the
  checksum is the hash of \<^verbatim>\<open>{"k":...,...}\<close> with the indices taken in the lexicographic
  order of their decimal strings. With eleven records index 10 comes right after index 1 and
  before index 2. The hashed string is never the array's own stringification, and the
  checksum of the empty list is the hash of \<^verbatim>\<open>{}\<close>.
\<close>

theorem checksum_of_array_is_object_checksum:
  "calculateModuleChecksum H (JArr records) =
     Inr (H (''{'' @ join '',''
            (map (\<lambda>i. JSON_stringify_string (show_nat i) @ '':'' @ stableStringify (records ! i))
                 (sort_key show_nat [0..<length records])) @ ''}''))
   \<and> sort_key show_nat [0..<11] = [0, 1, 10, 2, 3, 4, 5, 6, 7, 8, 9]
   \<and> moduleJsonStr (JArr records) \<noteq> Inr (stableStringify (JArr records))
   \<and> calculateModuleChecksum H (JArr []) = Inr (H ''{}'')"
proof -
  have 1: "calculateModuleChecksum H (JArr records) =
     Inr (H (''{'' @ join '',''
            (map (\<lambda>i. JSON_stringify_string (show_nat i) @ '':'' @ stableStringify (records ! i))
                 (sort_key show_nat [0..<length records])) @ ''}''))"
    by (simp add: calculateModuleChecksum_def moduleJsonStr_array)
  have 4: "calculateModuleChecksum H (JArr []) = Inr (H ''{}'')"
    by (simp add: calculateModuleChecksum_def moduleJsonStr_array)
  show ?thesis using 1 sort_key_11 moduleJsonStr_not_array 4 by blast
qed

section \<open>The two phases fill their slots by index\<close>

lemma length_js_assign: "length (js_assign arr i v) = max (length arr) (Suc i)"
  by (auto simp: js_assign_def)

lemma sget_js_assign: "sget (js_assign arr i v) j = (if j = i then Some v else sget arr j)"
  by (auto simp: js_assign_def sget_def nth_append)

lemma sget_fold_assign:
  "sget (fold (\<lambda>i arr. js_assign arr (i + k) (g i)) order arr) j
   = (if k \<le> j \<and> j - k \<in> set order then Some (g (j - k)) else sget arr j)"
proof (induction order arbitrary: arr)
  case Nil
  then show ?case by simp
next
  case (Cons i order)
  show ?case by (auto simp: Cons.IH sget_js_assign)
qed

lemma length_fold_assign_le:
  "length arr \<le> n + k \<Longrightarrow> set order \<subseteq> {0..<n}
   \<Longrightarrow> length (fold (\<lambda>i arr. js_assign arr (i + k) (g i)) order arr) \<le> n + k"
proof (induction order arbitrary: arr)
  case Nil
  then show ?case by simp
next
  case (Cons i order)
  have "length (js_assign arr (i + k) (g i)) \<le> n + k"
    using Cons.prems by (auto simp: length_js_assign)
  then show ?case using Cons.IH Cons.prems by simp
qed

lemma length_fold_assign_mono:
  "length arr \<le> length (fold (\<lambda>i arr. js_assign arr (i + k) (g i)) order arr)"
proof (induction order arbitrary: arr)
  case Nil
  then show ?case by simp
next
  case (Cons i order)
  have "length arr \<le> length (js_assign arr (i + k) (g i))" by (simp add: length_js_assign)
  then show ?case using Cons.IH[of "js_assign arr (i + k) (g i)"] by simp
qed

lemma length_fold_assign_gt:
  "i \<in> set order \<Longrightarrow> i + k < length (fold (\<lambda>i arr. js_assign arr (i + k) (g i)) order arr)"
proof (induction order arbitrary: arr)
  case Nil
  then show ?case by simp
next
  case (Cons a order)
  show ?case
  proof (cases "i = a")
    case True
    have "i + k < length (js_assign arr (a + k) (g a))" using True by (simp add: length_js_assign)
    then show ?thesis
      using length_fold_assign_mono[of "js_assign arr (a + k) (g a)" k g order] by simp
  next
    case False
    then show ?thesis using Cons by simp
  qed
qed

lemma fold_assign_all:
  assumes "set order = {0..<n}" and "length arr = k"
  shows "fold (\<lambda>i arr. js_assign arr (i + k) (g i)) order arr = arr @ map (\<lambda>i. Some (g i)) [0..<n]"
proof -
  let ?r = "fold (\<lambda>i arr. js_assign arr (i + k) (g i)) order arr"
  have le: "length ?r \<le> n + k"
    by (rule length_fold_assign_le) (use assms in auto)
  have ge: "n + k \<le> length ?r"
  proof (cases n)
    case 0
    then show ?thesis using assms length_fold_assign_mono[of arr k g order] by simp
  next
    case (Suc m)
    then have "m \<in> set order" using assms by simp
    then show ?thesis using length_fold_assign_gt[of m order k g arr] Suc by simp
  qed
  have len: "length ?r = n + k" using le ge by simp
  show ?thesis
  proof (rule nth_equalityI)
    show "length ?r = length (arr @ map (\<lambda>i. Some (g i)) [0..<n])" using len assms by simp
  next
    fix j assume "j < length ?r"
    then have j: "j < n + k" using len by simp
    have "?r ! j = sget ?r j" using j len by (simp add: sget_def)
    also have "\<dots> = (if k \<le> j \<and> j - k \<in> set order then Some (g (j - k)) else sget arr j)"
      by (rule sget_fold_assign)
    also have "\<dots> = (arr @ map (\<lambda>i. Some (g i)) [0..<n]) ! j"
      using j assms by (auto simp: nth_append sget_def)
    finally show "?r ! j = (arr @ map (\<lambda>i. Some (g i)) [0..<n]) ! j" .
  qed
qed

lemma fst_langshake_fold:
  "set order \<subseteq> {0..<length urls} \<Longrightarrow>
   fst (fold (langshake_step w urls) order (arr, log))
   = fold (\<lambda>i arr. js_assign arr (i + 1) (module_entry w urls i)) order arr"
proof (induction order arbitrary: arr log)
  case Nil
  then show ?case by simp
next
  case (Cons i order)
  have i: "i < length urls" using Cons.prems by simp
  obtain e l where t: "module_task (urls ! i) (getModule w i (urls ! i)) = (e, l)"
    by (cases "module_task (urls ! i) (getModule w i (urls ! i))")
  have step: "langshake_step w urls i (arr, log) = (js_assign arr (i + 1) (module_entry w urls i), log @ l)"
    using i t by (simp add: langshake_step_def nth_opt_def module_entry_def)
  show ?case using Cons.IH Cons.prems by (simp add: step)
qed

lemma langshake_phase_slots:
  assumes "set order = {0..<length urls}"
  shows "fst (langshake_phase w urls order [Some m])
         = Some m # map (\<lambda>i. Some (module_entry w urls i)) [0..<length urls]"
proof -
  have "fst (langshake_phase w urls order [Some m])
        = fold (\<lambda>i arr. js_assign arr (i + 1) (module_entry w urls i)) order [Some m]"
    unfolding langshake_phase_def by (rule fst_langshake_fold) (use assms in simp)
  also have "\<dots> = [Some m] @ map (\<lambda>i. Some (module_entry w urls i)) [0..<length urls]"
    by (rule fold_assign_all) (use assms in simp_all)
  finally show ?thesis by simp
qed


lemma mainEntityUrls_full:
  "mainEntityUrls_of (Some m # map (\<lambda>i. Some (module_entry w urls i)) [0..<n])
   = map (\<lambda>i. Some (page_entry_url w urls i, slot_langshake (module_entry w urls i))) [0..<n]"
  by (simp add: mainEntityUrls_of_def page_entry_url_def)

lemma fst_traditional_fold:
  assumes "set order \<subseteq> {0..<n}"
    and "es = map (\<lambda>i. Some (page_entry_url w urls i, slot_langshake (module_entry w urls i))) [0..<n]"
  shows "fst (fold (traditional_step w es) order (arr, log))
         = fold (\<lambda>i arr. js_assign arr (i + 0) (traditional_entry w urls i)) order arr"
  using assms(1)
proof (induction order arbitrary: arr log)
  case Nil
  then show ?case by simp
next
  case (Cons i order)
  have i: "i < n" using Cons.prems by simp
  have e: "nth_opt es i = Some (Some (page_entry_url w urls i, slot_langshake (module_entry w urls i)))"
    using i assms(2) by (simp add: nth_opt_def)
  obtain t l where t: "traditional_task (page_entry_url w urls i)
                         (crawlPage w i (page_entry_url w urls i)) = (t, l)"
    by (cases "traditional_task (page_entry_url w urls i) (crawlPage w i (page_entry_url w urls i))")
  have step: "traditional_step w es i (arr, log)
              = (js_assign arr i (traditional_entry w urls i), log @ l)"
    using e t by (simp add: traditional_step_def traditional_entry_def)
  show ?case using Cons.IH Cons.prems by (simp add: step)
qed

lemma traditional_phase_slots:
  assumes "set order = {0..<n}"
    and "es = map (\<lambda>i. Some (page_entry_url w urls i, slot_langshake (module_entry w urls i))) [0..<n]"
  shows "fst (traditional_phase w es order) = map (\<lambda>i. Some (traditional_entry w urls i)) [0..<n]"
proof -
  have "fst (traditional_phase w es order)
        = fold (\<lambda>i arr. js_assign arr (i + 0) (traditional_entry w urls i)) order []"
    unfolding traditional_phase_def by (rule fst_traditional_fold[OF _ assms(2)]) (use assms in simp)
  also have "\<dots> = [] @ map (\<lambda>i. Some (traditional_entry w urls i)) [0..<n]"
    by (rule fold_assign_all) (use assms in simp_all)
  finally show ?thesis by simp
qed

lemma calculateModuleChecksum_array:
  "calculateModuleChecksum H (JArr xs) = Inr (H (array_jsonStr xs))"
  by (simp add: calculateModuleChecksum_def moduleJsonStr_array array_jsonStr_def)

lemma make_page_ok:
  "\<exists>p. make_page H ls ts idx url = Inr p \<and> page_url p = url
       \<and> page_langshake p =
           (case nth_opt ls (idx + 1) of
              Some (Some r) \<Rightarrow> (case slot_langshake r of Some l \<Rightarrow> l | None \<Rightarrow> [])
            | _ \<Rightarrow> [])"
  by (simp add: make_page_def calculateModuleChecksum_array Let_def)

lemma make_pages_ok:
  "\<exists>pages. make_pages H ls ts idx es = Inr pages \<and> length pages = length es
      \<and> (\<forall>k<length es. \<forall>url m. es ! k = Some (url, m) \<longrightarrow>
            (\<exists>p. pages ! k = Some p \<and> make_page H ls ts (idx + k) url = Inr p))"
proof (induction H ls ts idx es rule: make_pages.induct)
  case (1 H ls ts idx)
  then show ?case by simp
next
  case (2 H ls ts idx rest)
  then obtain pages where p: "make_pages H ls ts (idx + 1) rest = Inr pages"
      "length pages = length rest"
      "\<forall>k<length rest. \<forall>url m. rest ! k = Some (url, m) \<longrightarrow>
            (\<exists>p. pages ! k = Some p \<and> make_page H ls ts (idx + 1 + k) url = Inr p)"
    by blast
  have a: "make_pages H ls ts idx (None # rest) = Inr (None # pages)" using p(1) by simp
  have b: "length (None # pages) = length (None # rest)" using p(2) by simp
  have c: "\<forall>k<length (None # rest). \<forall>url m. (None # rest) ! k = Some (url, m) \<longrightarrow>
            (\<exists>p. (None # pages) ! k = Some p \<and> make_page H ls ts (idx + k) url = Inr p)"
  proof (intro allI impI)
    fix k url m
    assume k: "k < length (None # rest)" and e: "(None # rest) ! k = Some (url, m)"
    then obtain k' where k': "k = Suc k'" by (cases k) auto
    then show "\<exists>p. (None # pages) ! k = Some p \<and> make_page H ls ts (idx + k) url = Inr p"
      using p(3) k e by auto
  qed
  show ?case using a b c by blast
next
  case (3 H ls ts idx url module rest)
  obtain p0 where p0: "make_page H ls ts idx url = Inr p0" using make_page_ok by blast
  from 3[OF p0] obtain pages where p: "make_pages H ls ts (idx + 1) rest = Inr pages"
      "length pages = length rest"
      "\<forall>k<length rest. \<forall>url m. rest ! k = Some (url, m) \<longrightarrow>
            (\<exists>p. pages ! k = Some p \<and> make_page H ls ts (idx + 1 + k) url = Inr p)"
    by blast
  have a: "make_pages H ls ts idx (Some (url, module) # rest) = Inr (Some p0 # pages)"
    using p(1) p0 by simp
  have b: "length (Some p0 # pages) = length (Some (url, module) # rest)" using p(2) by simp
  have c: "\<forall>k<length (Some (url, module) # rest). \<forall>u m.
             (Some (url, module) # rest) ! k = Some (u, m) \<longrightarrow>
             (\<exists>p. (Some p0 # pages) ! k = Some p \<and> make_page H ls ts (idx + k) u = Inr p)"
  proof (intro allI impI)
    fix k u m
    assume k: "k < length (Some (url, module) # rest)"
      and e: "(Some (url, module) # rest) ! k = Some (u, m)"
    show "\<exists>p. (Some p0 # pages) ! k = Some p \<and> make_page H ls ts (idx + k) u = Inr p"
    proof (cases k)
      case 0
      then show ?thesis using e p0 by simp
    next
      case (Suc k')
      then show ?thesis using p(3) k e by auto
    qed
  qed
  show ?case using a b c by blast
qed

lemma present_map_Some: "present (map (\<lambda>i. Some (f i)) xs) = map f xs"
  by (induction xs) auto

lemma filter_eq_single: "j < n \<Longrightarrow> filter (\<lambda>i. i = j) [0..<n] = [j]"
  by (induction n) (auto simp: less_Suc_eq)

lemma run_phases_complete:
  assumes m1: "getManifest w 1 = Inr m1"
    and mods: "getProp m1 ''modules'' = Inr (Some (JArr paths))"
    and urls: "build_moduleUrls (resolveUrl w) paths = urls"
    and o1: "set order1 = {0..<length urls}"
    and o2: "set order2 = {0..<length urls}"
  shows "\<exists>pages errs1 errs2.
      run_phases H w llmUrl root order1 order2 =
        (plain_get llmUrl # map plain_get urls
           @ map (\<lambda>i. Crawl (page_entry_url w urls i)) [0..<length urls],
         Complete \<lparr>r_pages = pages, r_summary = summarize H pages root,
                   r_langshakeResults =
                     Some (ManifestSuccess llmUrl m1)
                       # map (\<lambda>i. Some (module_entry w urls i)) [0..<length urls],
                   r_langshakeErrors = errs1, r_traditionalErrors = errs2\<rparr>)
      \<and> make_pages H
            (Some (ManifestSuccess llmUrl m1) # map (\<lambda>i. Some (module_entry w urls i)) [0..<length urls])
            (map (\<lambda>i. Some (traditional_entry w urls i)) [0..<length urls]) 0
            (map (\<lambda>i. Some (page_entry_url w urls i, slot_langshake (module_entry w urls i)))
               [0..<length urls])
          = Inr pages"
proof -
  let ?ls = "Some (ManifestSuccess llmUrl m1) # map (\<lambda>i. Some (module_entry w urls i)) [0..<length urls]"
  let ?es = "map (\<lambda>i. Some (page_entry_url w urls i, slot_langshake (module_entry w urls i)))
               [0..<length urls]"
  let ?ts = "map (\<lambda>i. Some (traditional_entry w urls i)) [0..<length urls]"
  have p1: "fst (langshake_phase w urls order1 [Some (ManifestSuccess llmUrl m1)]) = ?ls"
    by (rule langshake_phase_slots[OF o1])
  have es: "mainEntityUrls_of ?ls = ?es" by (rule mainEntityUrls_full)
  have p2: "fst (traditional_phase w ?es order2) = ?ts"
    by (rule traditional_phase_slots[OF o2 refl])
  obtain pages where pg: "make_pages H ?ls ?ts 0 ?es = Inr pages"
    using make_pages_ok[of H ?ls ?ts 0 ?es] by blast
  have pr: "map (\<lambda>(url, module). Crawl url) (present ?es)
            = map (\<lambda>i. Crawl (page_entry_url w urls i)) [0..<length urls]"
    by (simp add: present_map_Some)
  have "run_phases H w llmUrl root order1 order2 =
        (plain_get llmUrl # map plain_get urls
           @ map (\<lambda>i. Crawl (page_entry_url w urls i)) [0..<length urls],
         Complete \<lparr>r_pages = pages, r_summary = summarize H pages root,
                   r_langshakeResults = ?ls,
                   r_langshakeErrors = snd (langshake_phase w urls order1 [Some (ManifestSuccess llmUrl m1)]),
                   r_traditionalErrors = snd (traditional_phase w ?es order2)\<rparr>)"
    unfolding run_phases_def
    by (simp only: m1 mods urls sum.case option.case json.case Let_def p1 es p2 pg pr)
  then show ?thesis using pg by blast
qed

section \<open>Key order and record order in the module checksum\<close>

subsection \<open>Key order does not reach the serialisation\<close>




subsection \<open>Numbers can be read back\<close>









subsection \<open>Quoted strings can be read back\<close>








subsection \<open>The first character tells the kind of value\<close>






subsection \<open>Comma-separated items can be read back\<close>






subsection \<open>The serialisation determines the value up to key order\<close>









subsection \<open>The text that is hashed for a list of records\<close>








section \<open>What the coordinator makes of a module payload\<close>

lemma getUrl_nonnull: "x \<noteq> JNull \<Longrightarrow> getUrl x = Inr (subject_url x)"
  by (cases x) (auto simp: getUrl_def subject_url_def)

lemma filter_url_nonnull:
  "\<forall>x\<in>set xs. x \<noteq> JNull \<Longrightarrow> filter_url xs = Inr (filter has_subject_url xs)"
  by (induction xs) (auto simp: getUrl_nonnull has_subject_url_def)

lemma every_url_is_nonnull:
  "\<forall>x\<in>set xs. x \<noteq> JNull \<Longrightarrow>
   every_url_is url xs = Inr (list_all (\<lambda>x. strict_eq_apart (subject_url x) url) xs)"
  by (induction xs) (auto simp: getUrl_nonnull)

lemma allUrlsMatch_nonnull:
  "\<forall>x\<in>set xs. x \<noteq> JNull \<Longrightarrow>
   allUrlsMatch xs =
     Inr (case xs of [] \<Rightarrow> True
          | s0 # rest \<Rightarrow> list_all (\<lambda>x. strict_eq_apart (subject_url x) (subject_url s0)) rest)"
  by (cases xs) (auto simp: allUrlsMatch_def getUrl_nonnull every_url_is_nonnull)

lemma has_checksum_tail_iff:
  "has_checksum_tail xs = (2 \<le> length xs \<and> (\<exists>c. last xs = JObj [(''checksum'', c)]))"
proof (cases "last xs")
  case (JObj kvs)
  have "(length kvs = 1 \<and> ''checksum'' \<in> fst ` set kvs) = (\<exists>c. kvs = [(''checksum'', c)])"
    by (cases kvs) auto
  then show ?thesis using JObj by (auto simp: has_checksum_tail_def Object_keys_def)
next
  case (JArr ys)
  then show ?thesis by (auto simp: has_checksum_tail_def)
qed (auto simp: has_checksum_tail_def)

lemma canonical_chain:
  "x \<noteq> JNull \<Longrightarrow> truthy_opt (getProp_chain (Some x) ''url'') \<Longrightarrow>
     or_null (getProp_chain (Some x) ''url'') = or_null (subject_url x)"
  "x \<noteq> JNull \<Longrightarrow> \<not> truthy_opt (getProp_chain (Some x) ''url'') \<Longrightarrow>
     or_null (getProp_chain (Some x) ''og:url'') = or_null (subject_url x)"
  by (cases x; auto simp: subject_url_def getUrl_def)+

lemma module_fields_array:
  assumes "\<forall>x\<in>set xs. x \<noteq> JNull"
  shows "module_fields (JArr xs)
         = Inr (filter has_subject_url (records_of xs), declared_checksum xs, canonical_of xs)"
proof (cases "has_checksum_tail xs")
  case True
  then obtain c where l: "2 \<le> length xs" "last xs = JObj [(''checksum'', c)]"
    using has_checksum_tail_iff by auto
  then obtain x rest where xs: "xs = x # rest" by (cases xs) auto
  have bl: "\<forall>y\<in>set (butlast xs). y \<noteq> JNull" using assms by (auto dest: in_set_butlastD)
  have x: "x \<noteq> JNull" using assms xs by simp
  have f: "filter_url (butlast xs) = Inr (filter has_subject_url (butlast xs))"
    by (rule filter_url_nonnull[OF bl])
  have g: "getUrl (xs ! 0) = Inr (subject_url x)" using xs getUrl_nonnull[OF x] by simp
  have ck: "getProp (last xs) ''checksum'' = Inr (Some c)" using l(2) by simp
  have cn: "canonical_of xs = or_null (subject_url x)" using xs by (simp add: canonical_of_def)
  have dc: "declared_checksum xs = Some c" using True l(2) by (simp add: declared_checksum_def)
  show ?thesis
    by (simp add: module_fields_def True f g ck cn dc records_of_def)
next
  case False
  show ?thesis
  proof (cases xs)
    case Nil
    then show ?thesis using False
      by (simp add: module_fields_def records_of_def declared_checksum_def canonical_of_def nth_opt_def)
  next
    case (Cons x rest)
    have x: "x \<noteq> JNull" using assms Cons by simp
    have f: "filter_url xs = Inr (filter has_subject_url xs)"
      by (rule filter_url_nonnull[OF assms])
    have n0: "nth_opt xs 0 = Some x" using Cons by (simp add: nth_opt_def)
    have cn: "canonical_of xs = or_null (subject_url x)" using Cons by (simp add: canonical_of_def)
    have dc: "declared_checksum xs = Some JNull" using False by (simp add: declared_checksum_def)
    show ?thesis
      by (simp add: module_fields_def False f n0 cn dc records_of_def Let_def canonical_chain[OF x]
            del: getProp_chain.simps)
  qed
qed

lemma process_module_array:
  assumes "\<forall>x\<in>set xs. x \<noteq> JNull"
  shows "process_module modUrl (JArr xs) =
     (case filter has_subject_url (records_of xs) of
        [] \<Rightarrow> (ModuleSuccess (canonical_of xs) [] (declared_checksum xs), [])
      | s0 # rest \<Rightarrow>
          if list_all (\<lambda>x. strict_eq_apart (subject_url x) (subject_url s0)) rest
          then (ModuleSuccess (canonical_of xs) (s0 # rest) (declared_checksum xs), [])
          else (ModuleError modUrl, [(JStr modUrl, DifferingUrlFields)]))"
proof -
  have nn: "\<forall>x\<in>set (filter has_subject_url (records_of xs)). x \<noteq> JNull"
    using assms by (auto simp: records_of_def dest: in_set_butlastD)
  show ?thesis
    by (simp add: process_module_def module_fields_array[OF assms] allUrlsMatch_nonnull[OF nn]
          split: list.splits)
qed

lemma getProp_throws: "getProp x k = Inl e \<Longrightarrow> e = TypeError"
  by (cases x) auto

lemma getUrl_throws: "getUrl x = Inl e \<Longrightarrow> e = TypeError"
  by (auto simp: getUrl_def split: sum.splits if_splits dest: getProp_throws)

lemma filter_url_throws: "filter_url xs = Inl e \<Longrightarrow> e = TypeError"
  by (induction xs) (auto split: sum.splits dest: getUrl_throws)

lemma every_url_is_throws: "every_url_is url xs = Inl e \<Longrightarrow> e = TypeError"
  by (induction xs) (auto split: sum.splits if_splits dest: getUrl_throws)

lemma allUrlsMatch_throws: "allUrlsMatch xs = Inl e \<Longrightarrow> e = TypeError"
  by (auto simp: allUrlsMatch_def split: list.splits sum.splits
           dest: getUrl_throws every_url_is_throws)

lemma module_fields_throws: "module_fields modJson = Inl e \<Longrightarrow> e = TypeError"
  by (auto simp: module_fields_def Let_def split: json.splits sum.splits if_splits
           dest: getUrl_throws filter_url_throws getProp_throws)

lemma process_module_malformed_iff:
  "(\<exists>t. snd (process_module modUrl modJson) = [(JStr modUrl, MalformedSchemaObject t)])
   = ((\<forall>xs. modJson \<noteq> JArr xs) \<and> (\<forall>kvs. modJson \<noteq> JObj kvs))"
proof (cases modJson)
  case (JArr xs)
  then show ?thesis
    by (auto simp: process_module_def split: sum.splits prod.splits if_splits
             dest: module_fields_throws allUrlsMatch_throws)
next
  case (JObj kvs)
  then show ?thesis
    by (auto simp: process_module_def split: sum.splits prod.splits if_splits
             dest: module_fields_throws allUrlsMatch_throws)
qed (auto simp: process_module_def)

lemma filter_url_null: "JNull \<in> set xs \<Longrightarrow> filter_url xs = Inl TypeError"
proof (induction xs)
  case Nil
  then show ?case by simp
next
  case (Cons x xs)
  show ?case
  proof (cases "x = JNull")
    case True
    then show ?thesis by (simp add: getUrl_def)
  next
    case False
    then have "JNull \<in> set xs" using Cons.prems by auto
    then have "filter_url xs = Inl TypeError" by (rule Cons.IH)
    then show ?thesis using getUrl_nonnull[OF False] by simp
  qed
qed

lemma null_in_records: "(JNull \<in> set (records_of xs)) = (JNull \<in> set xs)"
proof (cases "has_checksum_tail xs")
  case True
  then obtain c where l: "2 \<le> length xs" "last xs = JObj [(''checksum'', c)]"
    using has_checksum_tail_iff by auto
  then have ne: "xs \<noteq> []" by auto
  have "set xs = insert (last xs) (set (butlast xs))"
    using append_butlast_last_id[OF ne] by (metis list.simps(15) rotate1.simps(2) set_rotate1)
  then show ?thesis using True l(2) by (simp add: records_of_def)
next
  case False
  then show ?thesis by (simp add: records_of_def)
qed

lemma process_module_null:
  assumes "JNull \<in> set xs"
  shows "process_module modUrl (JArr xs) = (ModuleError modUrl, [(JStr modUrl, TypeError)])"
proof (cases "has_checksum_tail xs")
  case True
  then obtain c where l: "2 \<le> length xs" "last xs = JObj [(''checksum'', c)]"
    using has_checksum_tail_iff by auto
  have "JNull \<in> set (butlast xs)" using null_in_records[of xs] assms True by (simp add: records_of_def)
  then have f: "filter_url (butlast xs) = Inl TypeError" by (rule filter_url_null)
  have ck: "getProp (last xs) ''checksum'' = Inr (Some c)" using l(2) by simp
  have "module_fields (JArr xs) = Inl TypeError" by (simp add: module_fields_def True f ck)
  then show ?thesis by (simp add: process_module_def)
next
  case False
  have f: "filter_url xs = Inl TypeError" using assms by (rule filter_url_null)
  have "module_fields (JArr xs) = Inl TypeError" by (simp add: module_fields_def False f)
  then show ?thesis by (simp add: process_module_def)
qed

lemma process_module_array_total:
  "process_module modUrl (JArr xs) =
     (if JNull \<in> set xs then (ModuleError modUrl, [(JStr modUrl, TypeError)])
      else if same_subject_url (filter has_subject_url (records_of xs))
      then (ModuleSuccess (canonical_of xs) (filter has_subject_url (records_of xs))
              (declared_checksum xs), [])
      else (ModuleError modUrl, [(JStr modUrl, DifferingUrlFields)]))"
proof (cases "JNull \<in> set xs")
  case True
  then show ?thesis by (simp add: process_module_null)
next
  case False
  then have nn: "\<forall>x\<in>set xs. x \<noteq> JNull" by auto
  show ?thesis using False
    by (simp add: process_module_array[OF nn] same_subject_url_def split: list.splits)
qed

lemma process_module_object:
  "process_module modUrl (JObj kvs) =
     (ModuleSuccess (if has_subject_url (JObj kvs) then or_null (subject_url (JObj kvs)) else JNull)
        (if has_subject_url (JObj kvs) then [JObj kvs] else [])
        (if truthy_opt (map_of kvs ''checksum'') then map_of kvs ''checksum'' else Some JNull), [])"
  by (simp add: process_module_def module_fields_def has_subject_url_def subject_url_def
        allUrlsMatch_def Let_def getUrl_def)

lemma process_module_primitive:
  "(\<forall>xs. modJson \<noteq> JArr xs) \<Longrightarrow> (\<forall>kvs. modJson \<noteq> JObj kvs) \<Longrightarrow>
   process_module modUrl modJson
     = (ModuleError modUrl, [(JStr modUrl, MalformedSchemaObject (js_typeof modJson))])"
  by (cases modJson) (simp_all add: process_module_def)

lemma process_module_status:
  "(slot_status (fst (process_module modUrl modJson)) = ''success'') = usable_payload modJson"
proof (cases modJson)
  case (JArr xs)
  then show ?thesis by (simp add: process_module_array_total usable_payload_def)
next
  case (JObj kvs)
  then show ?thesis by (simp add: process_module_object usable_payload_def)
qed (simp_all add: process_module_def usable_payload_def)

lemma usable_payload_success:
  "usable_payload modJson \<Longrightarrow>
   \<exists>url records checksum. process_module modUrl modJson = (ModuleSuccess url records checksum, [])"
proof (cases modJson)
  case (JArr xs)
  assume "usable_payload modJson"
  then show ?thesis using JArr by (simp add: process_module_array_total usable_payload_def)
next
  case (JObj kvs)
  then show ?thesis by (simp add: process_module_object)
qed (simp_all add: usable_payload_def)

lemma check_module_accepts_iff:
  "(v_modJson (check_module H modPath modJson) \<noteq> None)
   = (\<exists>xs kvs c. modJson = JArr xs \<and> 2 \<le> length xs \<and> last xs = JObj kvs
                 \<and> map_of kvs ''checksum'' = Some c \<and> truthy c)"
proof (cases modJson)
  case (JArr xs)
  show ?thesis
  proof (cases "last xs")
    case (JObj kvs)
    then show ?thesis using JArr
      by (auto simp: check_module_def rejected_module_def calculateModuleChecksum_array Let_def
               split: option.splits)
  qed (use JArr in \<open>auto simp: check_module_def rejected_module_def Let_def\<close>)
qed (auto simp: check_module_def rejected_module_def)

lemma check_module_rejects:
  "v_modJson (check_module H modPath modJson) = None \<Longrightarrow>
   v_error (check_module H modPath modJson) = Some NotValidArrayWithChecksum
   \<or> v_error (check_module H modPath modJson) = Some MissingChecksumObject"
  by (auto simp: check_module_def rejected_module_def calculateModuleChecksum_array Let_def
           split: json.splits option.splits if_splits)

text \<open>
  Claim C5, as the code has it. In the coordinator, an array payload is read as records
  followed by a declared checksum exactly when it has at least two elements and its last
  element is an object whose only field is \<^verbatim>\<open>checksum\<close>; every other array is read as
  records only, without a declared checksum. An array payload with a \<^verbatim>\<open>null\<close> element gives
  an error entry (a TypeError is logged); otherwise it gives a success entry when its records
  that have a subject URL agree on it, and an error entry about differing url fields when
  they do not. An object payload always gives a success entry: it is the only record when it
  has a subject URL, and its \<^verbatim>\<open>checksum\<close> field, when truthy, is the declared checksum. A
  payload that is neither an array nor an object (a string, a number, a boolean,
  \<^verbatim>\<open>null\<close>) gives an error entry and is the only kind logged as a malformed schema object.
  So the entry is a success entry exactly for the usable payloads. In the LangShake crawler,
  \<^verbatim>\<open>validateModule\<close> accepts a payload exactly when it is an array of at least two elements
  whose last element is an object with a truthy \<^verbatim>\<open>checksum\<close> field (further fields are
  allowed), and reports every other payload as not a valid array or as missing its checksum
  object.
\<close>

theorem payload_shapes:
  "has_checksum_tail xs = (2 \<le> length xs \<and> (\<exists>c. last xs = JObj [(''checksum'', c)]))
   \<and> (2 \<le> length xs \<and> last xs = JObj [(''checksum'', c)] \<longrightarrow>
        records_of xs = butlast xs \<and> declared_checksum xs = Some c)
   \<and> (\<not> has_checksum_tail xs \<longrightarrow> records_of xs = xs \<and> declared_checksum xs = Some JNull)
   \<and> process_module modUrl (JArr xs) =
        (if JNull \<in> set xs then (ModuleError modUrl, [(JStr modUrl, TypeError)])
         else if same_subject_url (filter has_subject_url (records_of xs))
         then (ModuleSuccess (canonical_of xs) (filter has_subject_url (records_of xs))
                 (declared_checksum xs), [])
         else (ModuleError modUrl, [(JStr modUrl, DifferingUrlFields)]))
   \<and> process_module modUrl (JObj kvs) =
        (ModuleSuccess (if has_subject_url (JObj kvs) then or_null (subject_url (JObj kvs)) else JNull)
           (if has_subject_url (JObj kvs) then [JObj kvs] else [])
           (if truthy_opt (map_of kvs ''checksum'') then map_of kvs ''checksum'' else Some JNull), [])
   \<and> ((\<forall>ys. modJson \<noteq> JArr ys) \<and> (\<forall>kvs'. modJson \<noteq> JObj kvs') \<longrightarrow>
        process_module modUrl modJson
          = (ModuleError modUrl, [(JStr modUrl, MalformedSchemaObject (js_typeof modJson))]))
   \<and> ((\<exists>t. snd (process_module modUrl modJson) = [(JStr modUrl, MalformedSchemaObject t)])
        = ((\<forall>ys. modJson \<noteq> JArr ys) \<and> (\<forall>kvs'. modJson \<noteq> JObj kvs')))
   \<and> ((slot_status (fst (process_module modUrl modJson)) = ''success'') = usable_payload modJson)
   \<and> ((v_modJson (check_module H modPath modJson) \<noteq> None)
        = (\<exists>ys kvs' c. modJson = JArr ys \<and> 2 \<le> length ys \<and> last ys = JObj kvs'
                      \<and> map_of kvs' ''checksum'' = Some c \<and> truthy c))
   \<and> (v_modJson (check_module H modPath modJson) = None \<longrightarrow>
        v_error (check_module H modPath modJson) = Some NotValidArrayWithChecksum
        \<or> v_error (check_module H modPath modJson) = Some MissingChecksumObject)"
proof -
  have 2: "2 \<le> length xs \<and> last xs = JObj [(''checksum'', c)] \<longrightarrow>
        records_of xs = butlast xs \<and> declared_checksum xs = Some c"
    by (auto simp: records_of_def declared_checksum_def has_checksum_tail_iff)
  have 3: "\<not> has_checksum_tail xs \<longrightarrow> records_of xs = xs \<and> declared_checksum xs = Some JNull"
    by (simp add: records_of_def declared_checksum_def)
  have 6: "(\<forall>ys. modJson \<noteq> JArr ys) \<and> (\<forall>kvs'. modJson \<noteq> JObj kvs') \<longrightarrow>
        process_module modUrl modJson
          = (ModuleError modUrl, [(JStr modUrl, MalformedSchemaObject (js_typeof modJson))])"
    using process_module_primitive[of modJson modUrl] by blast
  show ?thesis
    using has_checksum_tail_iff[of xs] 2 3 process_module_array_total[of modUrl xs]
      process_module_object[of modUrl kvs] 6 process_module_malformed_iff[of modUrl modJson]
      process_module_status[of modUrl modJson]
      check_module_accepts_iff[of H modPath modJson] check_module_rejects[of H modPath modJson]
    by blast
qed

text \<open>
  A payload with a single element is too short for the protocol; the coordinator makes a
  usable module entry of it.
\<close>

theorem short_payload_is_accepted:
  "process_module ''https://example.com/m.json'' (JArr [JObj [(''url'', JStr ''https://example.com/p'')]])
   = (ModuleSuccess (JStr ''https://example.com/p'')
        [JObj [(''url'', JStr ''https://example.com/p'')]] (Some JNull), [])"
  by (simp add: process_module_def module_fields_def has_checksum_tail_def allUrlsMatch_def
        getUrl_def nth_opt_def Let_def)

theorem payload_shapes_witness:
  "\<not> has_checksum_tail [JObj [(''url'', JStr ''https://example.com/p'')]]
   \<and> records_of [JObj [(''url'', JStr ''https://example.com/p'')]]
       = [JObj [(''url'', JStr ''https://example.com/p'')]]
   \<and> declared_checksum [JObj [(''url'', JStr ''https://example.com/p'')]] = Some JNull
   \<and> last [JObj [(''url'', JStr ''https://example.com/p'')], JObj [(''checksum'', JStr ''c'')]]
       = JObj [(''checksum'', JStr ''c'')]
   \<and> records_of [JObj [(''url'', JStr ''https://example.com/p'')], JObj [(''checksum'', JStr ''c'')]]
       = [JObj [(''url'', JStr ''https://example.com/p'')]]
   \<and> declared_checksum [JObj [(''url'', JStr ''https://example.com/p'')], JObj [(''checksum'', JStr ''c'')]]
       = Some (JStr ''c'')
   \<and> process_module ''https://example.com/m.json''
        (JArr [JObj [(''url'', JStr ''https://example.com/p'')], JObj [(''checksum'', JStr ''c'')]])
       = (ModuleSuccess (JStr ''https://example.com/p'')
            [JObj [(''url'', JStr ''https://example.com/p'')]] (Some (JStr ''c'')), [])
   \<and> process_module ''https://example.com/m.json'' (JStr ''not a module'')
       = (ModuleError ''https://example.com/m.json'',
          [(JStr ''https://example.com/m.json'', MalformedSchemaObject ''string'')])
   \<and> v_modJson (check_module id (JStr ''/m.json'') (JStr ''not a module'')) = None
   \<and> (v_error (check_module id (JStr ''/m.json'') (JStr ''not a module''))
          = Some NotValidArrayWithChecksum
        \<or> v_error (check_module id (JStr ''/m.json'') (JStr ''not a module''))
          = Some MissingChecksumObject)"
proof -
  let ?p = "JObj [(''url'', JStr ''https://example.com/p'')]"
  let ?c = "JObj [(''checksum'', JStr ''c'')]"
  note t1 = payload_shapes[of "[?p]" "JStr ''c''" "''https://example.com/m.json''" "[]"
      "JStr ''not a module''" id "JStr ''/m.json''"]
  note t2 = payload_shapes[of "[?p, ?c]" "JStr ''c''" "''https://example.com/m.json''" "[]"
      "JStr ''not a module''" id "JStr ''/m.json''"]
  have a: "\<not> has_checksum_tail [?p]" using t1 by simp
  have b: "records_of [?p] = [?p] \<and> declared_checksum [?p] = Some JNull" using t1 a by blast
  have l: "2 \<le> length [?p, ?c] \<and> last [?p, ?c] = ?c" by simp
  have r: "records_of [?p, ?c] = butlast [?p, ?c] \<and> declared_checksum [?p, ?c] = Some (JStr ''c'')"
    using t2 l by blast
  have su: "subject_url ?p = Some (JStr ''https://example.com/p'')"
    by (simp add: subject_url_def getUrl_def)
  have m: "process_module ''https://example.com/m.json'' (JArr [?p, ?c])
       = (ModuleSuccess (JStr ''https://example.com/p'') [?p] (Some (JStr ''c'')), [])"
    using t2 r by (simp add: same_subject_url_def has_subject_url_def su canonical_of_def)
  have s: "process_module ''https://example.com/m.json'' (JStr ''not a module'')
       = (ModuleError ''https://example.com/m.json'',
          [(JStr ''https://example.com/m.json'', MalformedSchemaObject ''string'')])"
    using t1 by simp
  have d: "v_modJson (check_module id (JStr ''/m.json'') (JStr ''not a module'')) = None"
    by (simp add: check_module_def rejected_module_def)
  have e: "v_error (check_module id (JStr ''/m.json'') (JStr ''not a module''))
          = Some NotValidArrayWithChecksum
        \<or> v_error (check_module id (JStr ''/m.json'') (JStr ''not a module''))
          = Some MissingChecksumObject"
    using t1 d by blast
  have r': "records_of [?p, ?c] = [?p] \<and> declared_checksum [?p, ?c] = Some (JStr ''c'')"
    using r by simp
  show ?thesis using a b l r' m s d e by simp
qed

lemma strict_eq_apart_eq: "strict_eq_apart p q \<Longrightarrow> p = q"
  by (cases "(p, q)" rule: strict_eq_apart.cases) auto

lemma or_null_falsy: "\<not> truthy_opt p \<Longrightarrow> or_null p = JNull"
  by (cases p) auto

lemma hd_in_records_of: "xs \<noteq> [] \<Longrightarrow> hd xs \<in> set (records_of xs)"
proof (cases "has_checksum_tail xs")
  case True
  assume "xs \<noteq> []"
  from True have "2 \<le> length xs" using has_checksum_tail_iff by auto
  then obtain x y rest where "xs = x # y # rest" by (cases xs; cases "tl xs") auto
  then show ?thesis using True by (simp add: records_of_def)
next
  case False
  assume "xs \<noteq> []"
  then show ?thesis using False by (simp add: records_of_def)
qed

lemma differing_urls_error:
  assumes nn: "\<forall>x\<in>set xs. x \<noteq> JNull"
    and a: "a \<in> set (records_of xs)" "has_subject_url a"
    and b: "b \<in> set (records_of xs)" "has_subject_url b"
    and ne: "subject_url a \<noteq> subject_url b"
  shows "process_module modUrl (JArr xs) = (ModuleError modUrl, [(JStr modUrl, DifferingUrlFields)])"
proof -
  let ?fs = "filter has_subject_url (records_of xs)"
  have ain: "a \<in> set ?fs" and bin: "b \<in> set ?fs" using a b by auto
  then obtain s0 rest where fs: "?fs = s0 # rest" by (cases ?fs) auto
  have "\<not> list_all (\<lambda>x. strict_eq_apart (subject_url x) (subject_url s0)) rest"
  proof
    assume all: "list_all (\<lambda>x. strict_eq_apart (subject_url x) (subject_url s0)) rest"
    have "\<And>x. x \<in> set ?fs \<Longrightarrow> subject_url x = subject_url s0"
      using all fs by (auto simp: list_all_iff dest: strict_eq_apart_eq)
    then show False using ain bin ne by metis
  qed
  then show ?thesis by (simp add: process_module_array[OF nn] fs)
qed

lemma shared_url_success:
  assumes nn: "\<forall>x\<in>set xs. x \<noteq> JNull"
    and ne: "xs \<noteq> []"
    and u: "subject_url (hd xs) = Some u" "truthy u" "is_primitive u"
    and all: "\<forall>x\<in>set (records_of xs). has_subject_url x \<longrightarrow> subject_url x = Some u"
  shows "process_module modUrl (JArr xs)
         = (ModuleSuccess u (filter has_subject_url (records_of xs)) (declared_checksum xs), [])"
proof -
  let ?fs = "filter has_subject_url (records_of xs)"
  have "hd xs \<in> set ?fs" using hd_in_records_of[OF ne] u by (simp add: has_subject_url_def)
  then obtain s0 rest where fs: "?fs = s0 # rest" by (cases ?fs) auto
  have su: "\<And>x. x \<in> set ?fs \<Longrightarrow> subject_url x = Some u" using all by auto
  have "list_all (\<lambda>x. strict_eq_apart (subject_url x) (subject_url s0)) rest"
    using su fs u(3) by (auto simp: list_all_iff)
  moreover have "canonical_of xs = u" using ne u by (cases xs) (auto simp: canonical_of_def)
  ultimately show ?thesis by (simp add: process_module_array[OF nn] fs)
qed

text \<open>
  Claim C6, as the code has it. Take an array payload without \<^verbatim>\<open>null\<close> elements. If two of
  its records have subject URLs and these differ, the module's entry is the error entry and
  the error logged is the one about differing url fields. If the first element of the payload
  has a primitive subject URL \<open>u\<close> and every record that has a subject URL has \<open>u\<close>, the entry
  is a success entry whose canonical URL is \<open>u\<close> and whose records are the records that have
  a subject URL.
\<close>

theorem subject_url_consistency:
  "((\<forall>x\<in>set xs. x \<noteq> JNull) \<and> a \<in> set (records_of xs) \<and> b \<in> set (records_of xs)
      \<and> has_subject_url a \<and> has_subject_url b \<and> subject_url a \<noteq> subject_url b \<longrightarrow>
     process_module modUrl (JArr xs) = (ModuleError modUrl, [(JStr modUrl, DifferingUrlFields)]))
   \<and> ((\<forall>x\<in>set xs. x \<noteq> JNull) \<and> xs \<noteq> [] \<and> subject_url (hd xs) = Some u \<and> truthy u
        \<and> is_primitive u
        \<and> (\<forall>x\<in>set (records_of xs). has_subject_url x \<longrightarrow> subject_url x = Some u) \<longrightarrow>
       process_module modUrl (JArr xs)
         = (ModuleSuccess u (filter has_subject_url (records_of xs)) (declared_checksum xs), []))"
  using differing_urls_error[of xs a b modUrl] shared_url_success[of xs u modUrl] by blast


theorem subject_url_consistency_witness:
  "process_module ''https://example.com/langshake/bad-schemas.json''
     (JArr [JObj [(''@type'', JStr ''Article''), (''url'', JStr ''https://example.com/page1'')],
            JObj [(''@type'', JStr ''Product''), (''url'', JStr ''https://example.com/page2'')],
            JObj [(''checksum'', JStr ''irrelevant'')]])
   = (ModuleError ''https://example.com/langshake/bad-schemas.json'',
      [(JStr ''https://example.com/langshake/bad-schemas.json'', DifferingUrlFields)])
   \<and> process_module ''https://example.com/langshake/good-schemas.json''
     (JArr [JObj [(''@type'', JStr ''Article''), (''url'', JStr ''https://example.com/page1'')],
            JObj [(''@type'', JStr ''Product''), (''og:url'', JStr ''https://example.com/page1'')],
            JObj [(''checksum'', JStr ''irrelevant'')]])
   = (ModuleSuccess (JStr ''https://example.com/page1'')
        [JObj [(''@type'', JStr ''Article''), (''url'', JStr ''https://example.com/page1'')],
         JObj [(''@type'', JStr ''Product''), (''og:url'', JStr ''https://example.com/page1'')]]
        (Some (JStr ''irrelevant'')), [])"
proof -
  let ?a = "JObj [(''@type'', JStr ''Article''), (''url'', JStr ''https://example.com/page1'')]"
  let ?b = "JObj [(''@type'', JStr ''Product''), (''url'', JStr ''https://example.com/page2'')]"
  let ?b' = "JObj [(''@type'', JStr ''Product''), (''og:url'', JStr ''https://example.com/page1'')]"
  let ?c = "JObj [(''checksum'', JStr ''irrelevant'')]"
  have tail: "has_checksum_tail [?a, ?b, ?c]" "has_checksum_tail [?a, ?b', ?c]"
    by (simp_all add: has_checksum_tail_iff)
  have rec: "records_of [?a, ?b, ?c] = [?a, ?b]" "records_of [?a, ?b', ?c] = [?a, ?b']"
    using tail by (simp_all add: records_of_def)
  have su: "subject_url ?a = Some (JStr ''https://example.com/page1'')"
    "subject_url ?b = Some (JStr ''https://example.com/page2'')"
    "subject_url ?b' = Some (JStr ''https://example.com/page1'')"
    by (simp_all add: subject_url_def getUrl_def)
  have dc: "declared_checksum [?a, ?b', ?c] = Some (JStr ''irrelevant'')"
    using tail by (simp add: declared_checksum_def)
  note t1 = subject_url_consistency[of "[?a, ?b, ?c]" ?a ?b
      "''https://example.com/langshake/bad-schemas.json''" "JStr ''https://example.com/page1''",
      THEN conjunct1]
  note t2 = subject_url_consistency[of "[?a, ?b', ?c]" ?a ?b'
      "''https://example.com/langshake/good-schemas.json''" "JStr ''https://example.com/page1''",
      THEN conjunct2]
  have 1: "process_module ''https://example.com/langshake/bad-schemas.json'' (JArr [?a, ?b, ?c])
     = (ModuleError ''https://example.com/langshake/bad-schemas.json'',
        [(JStr ''https://example.com/langshake/bad-schemas.json'', DifferingUrlFields)])"
    using t1 by (simp add: rec su has_subject_url_def)
  have 2: "process_module ''https://example.com/langshake/good-schemas.json'' (JArr [?a, ?b', ?c])
     = (ModuleSuccess (JStr ''https://example.com/page1'') [?a, ?b'] (Some (JStr ''irrelevant'')), [])"
    using t2 by (simp add: rec su has_subject_url_def dc)
  show ?thesis using 1 2 by blast
qed

text \<open>
  The first element of this payload has no subject URL, its only other record has one. The
  record without URL is not flagged, and the canonical URL of the entry is \<^verbatim>\<open>null\<close>, not
  the URL of the module's record.
\<close>

theorem first_record_without_url:
  "process_module ''https://example.com/m.json''
     (JArr [JObj [(''name'', JStr ''A'')],
            JObj [(''url'', JStr ''https://example.com/p'')],
            JObj [(''checksum'', JStr ''c'')]])
   = (ModuleSuccess JNull [JObj [(''url'', JStr ''https://example.com/p'')]] (Some (JStr ''c'')), [])"
  by (simp add: process_module_def module_fields_def has_checksum_tail_def Object_keys_def
        allUrlsMatch_def getUrl_def Let_def)

lemma lacking_fields: 
  "getProp x ''url'' = Inr None \<Longrightarrow> getProp x ''og:url'' = Inr None \<Longrightarrow> \<not> has_subject_url x"
  by (simp add: has_subject_url_def subject_url_def getUrl_def)

lemma process_module_error_iff:
  assumes nn: "\<forall>x\<in>set xs. x \<noteq> JNull"
  shows "(fst (process_module modUrl (JArr xs)) = ModuleError modUrl)
         = (allUrlsMatch (filter has_subject_url (records_of xs)) = Inr False)"
proof -
  have nn': "\<forall>x\<in>set (filter has_subject_url (records_of xs)). x \<noteq> JNull"
    using nn by (auto simp: records_of_def dest: in_set_butlastD)
  show ?thesis
    by (auto simp: process_module_array[OF nn] allUrlsMatch_nonnull[OF nn'] split: list.splits)
qed

lemma all_lacking_success:
  assumes nn: "\<forall>x\<in>set xs. x \<noteq> JNull"
    and none: "\<forall>x\<in>set (records_of xs). \<not> has_subject_url x"
  shows "process_module modUrl (JArr xs) = (ModuleSuccess JNull [] (declared_checksum xs), [])"
proof -
  have f: "filter has_subject_url (records_of xs) = []" using none by (simp add: filter_empty_conv)
  have "canonical_of xs = JNull"
  proof (cases xs)
    case Nil
    then show ?thesis by (simp add: canonical_of_def)
  next
    case (Cons x rest)
    then have "hd xs \<in> set (records_of xs)" using hd_in_records_of[of xs] by simp
    then have "\<not> has_subject_url x" using none Cons by auto
    then show ?thesis using Cons by (simp add: canonical_of_def has_subject_url_def or_null_falsy)
  qed
  then show ?thesis by (simp add: process_module_array[OF nn] f)
qed

lemma single_object_lacking:
  "\<not> has_subject_url (JObj kvs) \<Longrightarrow>
   \<exists>c. process_module modUrl (JObj kvs) = (ModuleSuccess JNull [] c, [])"
  by (auto simp: process_module_def module_fields_def has_subject_url_def subject_url_def
        allUrlsMatch_def Let_def split: sum.splits)

text \<open>
  Claim C10, as the code has it. A record without \<^verbatim>\<open>url\<close> and without \<^verbatim>\<open>og:url\<close> has
  no subject URL. For an array payload without \<^verbatim>\<open>null\<close> element the module's record list
  is the list of the records that have a subject URL: the others are dropped before
  \<^verbatim>\<open>allUrlsMatch\<close> runs, the entry is an error entry exactly when \<^verbatim>\<open>allUrlsMatch\<close> fails
  on the records that are left, and nothing is logged for a dropped record. When no record has
  a subject URL, the entry is a success entry with an empty record list and the canonical URL
  \<^verbatim>\<open>null\<close>; the same holds for a payload that is a single object without subject URL. An
  array payload with a \<^verbatim>\<open>null\<close> element is different: reading the URL of \<^verbatim>\<open>null\<close>
  throws, nothing is dropped, and the entry is an error entry with a TypeError logged.
\<close>

theorem records_without_url_are_dropped:
  "(getProp x ''url'' = Inr None \<and> getProp x ''og:url'' = Inr None \<longrightarrow> \<not> has_subject_url x)
   \<and> ((\<forall>x\<in>set xs. x \<noteq> JNull) \<longrightarrow>
        module_fields (JArr xs)
          = Inr (filter has_subject_url (records_of xs), declared_checksum xs, canonical_of xs))
   \<and> ((\<forall>x\<in>set xs. x \<noteq> JNull) \<longrightarrow>
        (fst (process_module modUrl (JArr xs)) = ModuleError modUrl)
          = (allUrlsMatch (filter has_subject_url (records_of xs)) = Inr False))
   \<and> ((\<forall>x\<in>set xs. x \<noteq> JNull) \<and> (\<forall>x\<in>set (records_of xs). \<not> has_subject_url x) \<longrightarrow>
        process_module modUrl (JArr xs) = (ModuleSuccess JNull [] (declared_checksum xs), []))
   \<and> (\<not> has_subject_url (JObj kvs) \<longrightarrow>
        (\<exists>c. process_module modUrl (JObj kvs) = (ModuleSuccess JNull [] c, [])))
   \<and> (JNull \<in> set xs \<longrightarrow>
        process_module modUrl (JArr xs) = (ModuleError modUrl, [(JStr modUrl, TypeError)]))"
  using lacking_fields[of x] module_fields_array[of xs] process_module_error_iff[of xs modUrl]
    all_lacking_success[of xs modUrl] single_object_lacking[of kvs modUrl]
    process_module_null[of xs modUrl]
  by blast

text \<open>
  The first record of the first payload has neither field and the second is \<^verbatim>\<open>null\<close>; the
  only record of the second payload is \<^verbatim>\<open>null\<close>. Neither module ends as a success entry.
\<close>

theorem null_record_is_an_error:
  "process_module ''https://example.com/m.json''
     (JArr [JObj [(''name'', JStr ''A'')], JNull, JObj [(''checksum'', JStr ''c'')]])
   = (ModuleError ''https://example.com/m.json'', [(JStr ''https://example.com/m.json'', TypeError)])
   \<and> process_module ''https://example.com/m.json'' (JArr [JNull, JObj [(''checksum'', JStr ''c'')]])
   = (ModuleError ''https://example.com/m.json'', [(JStr ''https://example.com/m.json'', TypeError)])"
  by (simp add: process_module_def module_fields_def has_checksum_tail_def Object_keys_def
        getUrl_def Let_def)

theorem records_without_url_are_dropped_witness:
  "getProp (JObj [(''name'', JStr ''A'')]) ''url'' = Inr None
   \<and> getProp (JObj [(''name'', JStr ''A'')]) ''og:url'' = Inr None
   \<and> \<not> has_subject_url (JObj [(''name'', JStr ''A'')])
   \<and> process_module ''https://example.com/m.json''
        (JArr [JObj [(''name'', JStr ''A'')], JObj [(''name'', JStr ''B'')],
               JObj [(''checksum'', JStr ''c'')]])
      = (ModuleSuccess JNull [] (Some (JStr ''c'')), [])
   \<and> module_fields (JArr [JObj [(''name'', JStr ''A'')],
                           JObj [(''url'', JStr ''https://example.com/p'')],
                           JObj [(''checksum'', JStr ''c'')]])
      = Inr ([JObj [(''url'', JStr ''https://example.com/p'')]], Some (JStr ''c''), JNull)
   \<and> JNull \<in> set [JObj [(''url'', JStr ''https://example.com/p'')], JNull]
   \<and> process_module ''https://example.com/m.json''
        (JArr [JObj [(''url'', JStr ''https://example.com/p'')], JNull])
      = (ModuleError ''https://example.com/m.json'', [(JStr ''https://example.com/m.json'', TypeError)])"
proof -
  let ?a = "JObj [(''name'', JStr ''A'')]"
  let ?b = "JObj [(''name'', JStr ''B'')]"
  let ?p = "JObj [(''url'', JStr ''https://example.com/p'')]"
  let ?c = "JObj [(''checksum'', JStr ''c'')]"
  note t1 = records_without_url_are_dropped[of ?a "[?a, ?b, ?c]" "''https://example.com/m.json''" "[]"]
  note t2 = records_without_url_are_dropped[of ?a "[?a, ?p, ?c]" "''https://example.com/m.json''" "[]"]
  note t3 = records_without_url_are_dropped[of ?a "[?p, JNull]" "''https://example.com/m.json''" "[]"]
  have g: "getProp ?a ''url'' = Inr None" "getProp ?a ''og:url'' = Inr None" by simp_all
  have h: "\<not> has_subject_url ?a" using t1 g by blast
  have tail: "has_checksum_tail [?a, ?b, ?c]" "has_checksum_tail [?a, ?p, ?c]"
    by (simp_all add: has_checksum_tail_iff)
  have rec: "records_of [?a, ?b, ?c] = [?a, ?b]" "records_of [?a, ?p, ?c] = [?a, ?p]"
    using tail by (simp_all add: records_of_def)
  have hs: "\<not> has_subject_url ?b" "has_subject_url ?p"
    by (simp_all add: has_subject_url_def subject_url_def getUrl_def)
  have dc: "declared_checksum [?a, ?b, ?c] = Some (JStr ''c'')"
    "declared_checksum [?a, ?p, ?c] = Some (JStr ''c'')"
    using tail by (simp_all add: declared_checksum_def)
  have cn: "canonical_of [?a, ?p, ?c] = JNull"
    by (simp add: canonical_of_def subject_url_def getUrl_def)
  have 1: "process_module ''https://example.com/m.json'' (JArr [?a, ?b, ?c])
           = (ModuleSuccess JNull [] (Some (JStr ''c'')), [])"
    using t1 h hs by (simp add: rec dc)
  have 2: "module_fields (JArr [?a, ?p, ?c]) = Inr ([?p], Some (JStr ''c''), JNull)"
    using t2 h hs by (simp add: rec dc cn)
  have n: "JNull \<in> set [?p, JNull]" by simp
  have 3: "process_module ''https://example.com/m.json'' (JArr [?p, JNull])
      = (ModuleError ''https://example.com/m.json'', [(JStr ''https://example.com/m.json'', TypeError)])"
    using t3 n by blast
  show ?thesis using g h 1 2 n 3 by blast
qed

section \<open>Partial failure\<close>

lemma runDomainBenchmark_phases:
  assumes "manifestUrl w = Some llmUrl" and "getManifest w 0 = Inr m0"
    and "getProp m0 ''modules'' = Inr (Some (JArr paths0))" and "paths0 \<noteq> []"
  shows "runDomainBenchmark H w order1 order2 =
           (plain_get llmUrl #
              fst (run_phases H w llmUrl
                     (or_null (getProp_chain (getProp_chain (Some m0) ''verification'') ''merkleRoot''))
                     order1 order2),
            snd (run_phases H w llmUrl
                   (or_null (getProp_chain (getProp_chain (Some m0) ''verification'') ''merkleRoot''))
                   order1 order2))"
  using assms by (simp add: runDomainBenchmark_def Let_def split: prod.splits)

lemma make_page_traditional:
  "make_page H ls ts idx url = Inr p \<Longrightarrow>
   page_traditional p =
     (case nth_opt ts idx of
        Some (Some t) \<Rightarrow> (case tslot_traditional t of Some l \<Rightarrow> l | None \<Rightarrow> [])
      | _ \<Rightarrow> [])"
  by (auto simp: make_page_def calculateModuleChecksum_array Let_def)

lemma module_entry_fetched:
  "getModule w i (urls ! i) = Inr p \<Longrightarrow>
   module_entry w urls i = fst (process_module (urls ! i) p)"
  by (simp add: module_entry_def module_task_def)

text \<open>
  Claim C4, as the code has it. Take a manifest whose \<open>N\<close> module paths all resolve, let the
  fetch of module \<open>j\<close> fail and let every other fetch return a usable payload (an object, or
  an array without \<^verbatim>\<open>null\<close> element whose records that have a subject URL agree on it).
  Then, for every order in which the tasks of the two phases complete, the run completes;
  \<^verbatim>\<open>langshakeResults\<close> has the manifest entry and exactly \<open>N\<close> module entries, entry
  \<open>i + 1\<close> being the one of module \<open>i\<close>; the entry of module \<open>j\<close> is the error entry carrying
  its URL and every other module entry is the success entry made of its payload, so that
  exactly one entry has status error and \<open>N - 1\<close> module entries have status success;
  \<^verbatim>\<open>pages\<close> has \<open>N\<close> elements, and page \<open>i\<close> carries the URL and the records of module \<open>i\<close>
  and the records that the traditional crawl of that URL gave for index \<open>i\<close>.
\<close>

theorem one_failed_module_fetch:
  assumes "manifestUrl w = Some llmUrl"
    and "getManifest w 0 = Inr m0"
    and "getProp m0 ''modules'' = Inr (Some (JArr paths0))"
    and "paths0 \<noteq> []"
    and "getManifest w 1 = Inr m1"
    and "getProp m1 ''modules'' = Inr (Some (JArr paths))"
    and "build_moduleUrls (resolveUrl w) paths = urls"
    and "length urls = length paths"
    and "set order1 = {0..<length paths}"
    and "set order2 = {0..<length paths}"
    and "j < length paths"
    and "getModule w j (urls ! j) = Inl msg"
    and "\<And>i. i < length paths \<Longrightarrow> i \<noteq> j \<Longrightarrow>
           \<exists>p. getModule w i (urls ! i) = Inr p \<and> usable_payload p"
  shows "\<exists>effects res.
      runDomainBenchmark H w order1 order2 = (effects, Complete res)
      \<and> length (r_langshakeResults res) = length paths + 1
      \<and> (\<forall>i<length paths. r_langshakeResults res ! (i + 1) = Some (module_entry w urls i))
      \<and> r_langshakeResults res ! (j + 1) = Some (ModuleError (urls ! j))
      \<and> (\<forall>i<length paths. i \<noteq> j \<longrightarrow>
            (\<exists>p url records checksum. getModule w i (urls ! i) = Inr p
               \<and> process_module (urls ! i) p = (ModuleSuccess url records checksum, [])
               \<and> r_langshakeResults res ! (i + 1) = Some (ModuleSuccess url records checksum)))
      \<and> length (filter (\<lambda>r. slot_status r = ''error'') (present (r_langshakeResults res))) = 1
      \<and> length (filter (\<lambda>r. slot_status r = ''success'') (present (drop 1 (r_langshakeResults res))))
          = length paths - 1
      \<and> length (r_pages res) = length paths
      \<and> (\<forall>i<length paths. \<exists>p. r_pages res ! i = Some p
             \<and> page_url p = slot_url (module_entry w urls i)
             \<and> page_langshake p =
                 (case slot_langshake (module_entry w urls i) of Some l \<Rightarrow> l | None \<Rightarrow> [])
             \<and> page_traditional p =
                 (case tslot_traditional (traditional_entry w urls i) of Some l \<Rightarrow> l | None \<Rightarrow> []))"
proof -
  let ?n = "length urls"
  let ?root = "or_null (getProp_chain (getProp_chain (Some m0) ''verification'') ''merkleRoot'')"
  let ?ls = "Some (ManifestSuccess llmUrl m1) # map (\<lambda>i. Some (module_entry w urls i)) [0..<?n]"
  let ?es = "map (\<lambda>i. Some (page_entry_url w urls i, slot_langshake (module_entry w urls i))) [0..<?n]"
  let ?ts = "map (\<lambda>i. Some (traditional_entry w urls i)) [0..<?n]"
  have n: "?n = length paths" using assms(8) .
  obtain pages errs1 errs2 where
    run: "run_phases H w llmUrl ?root order1 order2 =
        (plain_get llmUrl # map plain_get urls
           @ map (\<lambda>i. Crawl (page_entry_url w urls i)) [0..<?n],
         Complete \<lparr>r_pages = pages, r_summary = summarize H pages ?root,
                   r_langshakeResults = ?ls,
                   r_langshakeErrors = errs1, r_traditionalErrors = errs2\<rparr>)"
    and pg: "make_pages H ?ls ?ts 0 ?es = Inr pages"
    using run_phases_complete[OF assms(5) assms(6) assms(7), of order1 order2 H llmUrl ?root]
      assms(9) assms(10) n by auto
  define res where "res = \<lparr>r_pages = pages, r_summary = summarize H pages ?root,
                   r_langshakeResults = ?ls,
                   r_langshakeErrors = errs1, r_traditionalErrors = errs2\<rparr>"
  have out: "runDomainBenchmark H w order1 order2 =
       (plain_get llmUrl # plain_get llmUrl # map plain_get urls
           @ map (\<lambda>i. Crawl (page_entry_url w urls i)) [0..<?n], Complete res)"
    using runDomainBenchmark_phases[OF assms(1-4), of H order1 order2] run by (simp add: res_def)
  have ej: "module_entry w urls j = ModuleError (urls ! j)"
    using assms(12) by (simp add: module_entry_def module_task_def)
  have st: "\<And>i. i < ?n \<Longrightarrow> (slot_status (module_entry w urls i) = ''error'') = (i = j)"
  proof -
    fix i assume i: "i < ?n"
    show "(slot_status (module_entry w urls i) = ''error'') = (i = j)"
    proof (cases "i = j")
      case True
      then show ?thesis using ej by simp
    next
      case False
      then obtain p where "getModule w i (urls ! i) = Inr p" "usable_payload p"
        using assms(13) i n by force
      then have "slot_status (module_entry w urls i) = ''success''"
        by (simp add: module_entry_fetched process_module_status)
      then show ?thesis using False by simp
    qed
  qed
  have c1: "length (r_langshakeResults res) = length paths + 1" using n by (simp add: res_def)
  have c2: "\<forall>i<length paths. r_langshakeResults res ! (i + 1) = Some (module_entry w urls i)"
    using n by (simp add: res_def)
  have c3: "r_langshakeResults res ! (j + 1) = Some (ModuleError (urls ! j))"
    using c2 assms(11) ej by simp
  have c3': "\<forall>i<length paths. i \<noteq> j \<longrightarrow>
            (\<exists>p url records checksum. getModule w i (urls ! i) = Inr p
               \<and> process_module (urls ! i) p = (ModuleSuccess url records checksum, [])
               \<and> r_langshakeResults res ! (i + 1) = Some (ModuleSuccess url records checksum))"
  proof (intro allI impI)
    fix i assume i: "i < length paths" and ne: "i \<noteq> j"
    then obtain p where p: "getModule w i (urls ! i) = Inr p" "usable_payload p"
      using assms(13) by force
    have e: "module_entry w urls i = fst (process_module (urls ! i) p)"
      using p(1) by (rule module_entry_fetched)
    obtain url records checksum where
      m: "process_module (urls ! i) p = (ModuleSuccess url records checksum, [])"
      using usable_payload_success[OF p(2)] by blast
    have "r_langshakeResults res ! (i + 1) = Some (ModuleSuccess url records checksum)"
      using c2 i e m by simp
    then show "\<exists>p url records checksum. getModule w i (urls ! i) = Inr p
               \<and> process_module (urls ! i) p = (ModuleSuccess url records checksum, [])
               \<and> r_langshakeResults res ! (i + 1) = Some (ModuleSuccess url records checksum)"
      using p(1) m by blast
  qed
  have f1: "filter (\<lambda>r. slot_status r = ''error'') (map (module_entry w urls) [0..<?n])
            = map (module_entry w urls) (filter (\<lambda>i. i = j) [0..<?n])"
    unfolding filter_map o_def by (rule arg_cong[where f = "map (module_entry w urls)"])
      (rule filter_cong, simp, use st in simp)
  have e1: "length (filter (\<lambda>r. slot_status r = ''error'') (map (module_entry w urls) [0..<?n])) = 1"
  proof -
    have "j < ?n" using assms(11) n by simp
    then have "filter (\<lambda>i. i = j) [0..<?n] = [j]" by (rule filter_eq_single)
    then show ?thesis by (simp only: f1 length_map list.size)
  qed
  have c4: "length (filter (\<lambda>r. slot_status r = ''error'') (present (r_langshakeResults res))) = 1"
    using e1 by (simp add: res_def present_map_Some del: filter_map)
  have sm: "length (filter (\<lambda>r. slot_status r = ''error'') (map (module_entry w urls) [0..<?n]))
        + length (filter (\<lambda>r. \<not> slot_status r = ''error'') (map (module_entry w urls) [0..<?n]))
        = ?n"
    using sum_length_filter_compl[of "\<lambda>r. slot_status r = ''error''" "map (module_entry w urls) [0..<?n]"]
    by simp
  have fe: "(\<lambda>r. \<not> slot_status r = ''error'') = (\<lambda>r. slot_status r = ''success'')"
  proof
    fix r show "(\<not> slot_status r = ''error'') = (slot_status r = ''success'')" by (cases r) auto
  qed
  have e2: "length (filter (\<lambda>r. slot_status r = ''success'') (map (module_entry w urls) [0..<?n]))
            = ?n - 1"
    using sm e1 unfolding fe by arith
  have c5: "length (filter (\<lambda>r. slot_status r = ''success'')
                         (present (drop 1 (r_langshakeResults res)))) = length paths - 1"
    using e2 n by (simp add: res_def present_map_Some del: filter_map)
  obtain pages' where pg': "make_pages H ?ls ?ts 0 ?es = Inr pages'" "length pages' = length ?es"
     and pk: "\<forall>k<length ?es. \<forall>url m. ?es ! k = Some (url, m) \<longrightarrow>
            (\<exists>p. pages' ! k = Some p \<and> make_page H ?ls ?ts (0 + k) url = Inr p)"
    using make_pages_ok[of H ?ls ?ts 0 ?es] by blast
  have same: "pages' = pages" using pg pg'(1) by simp
  have c6: "length (r_pages res) = length paths" using pg'(2) same n by (simp add: res_def)
  have c7: "\<forall>i<length paths. \<exists>p. r_pages res ! i = Some p
             \<and> page_url p = slot_url (module_entry w urls i)
             \<and> page_langshake p =
                 (case slot_langshake (module_entry w urls i) of Some l \<Rightarrow> l | None \<Rightarrow> [])
             \<and> page_traditional p =
                 (case tslot_traditional (traditional_entry w urls i) of Some l \<Rightarrow> l | None \<Rightarrow> [])"
  proof (intro allI impI)
    fix i assume i: "i < length paths"
    then have e: "?es ! i = Some (page_entry_url w urls i, slot_langshake (module_entry w urls i))"
      using n by simp
    then obtain p where p: "pages ! i = Some p"
        "make_page H ?ls ?ts i (page_entry_url w urls i) = Inr p"
      using pk i n same by force
    obtain q where q: "make_page H ?ls ?ts i (page_entry_url w urls i) = Inr q"
        "page_url q = page_entry_url w urls i"
        "page_langshake q =
           (case nth_opt ?ls (i + 1) of
              Some (Some r) \<Rightarrow> (case slot_langshake r of Some l \<Rightarrow> l | None \<Rightarrow> [])
            | _ \<Rightarrow> [])"
      using make_page_ok[of H ?ls ?ts i "page_entry_url w urls i"] by blast
    have pq: "p = q" using p(2) q(1) by simp
    have nth: "nth_opt ?ls (i + 1) = Some (Some (module_entry w urls i))"
      using i n by (simp add: nth_opt_def)
    have tnth: "nth_opt ?ts i = Some (Some (traditional_entry w urls i))"
      using i n by (simp add: nth_opt_def)
    have tr: "page_traditional p =
                 (case tslot_traditional (traditional_entry w urls i) of Some l \<Rightarrow> l | None \<Rightarrow> [])"
      using make_page_traditional[OF p(2)] tnth by simp
    show "\<exists>p. r_pages res ! i = Some p
             \<and> page_url p = slot_url (module_entry w urls i)
             \<and> page_langshake p =
                 (case slot_langshake (module_entry w urls i) of Some l \<Rightarrow> l | None \<Rightarrow> [])
             \<and> page_traditional p =
                 (case tslot_traditional (traditional_entry w urls i) of Some l \<Rightarrow> l | None \<Rightarrow> [])"
      using p(1) q(2) q(3) pq nth tr by (simp add: res_def page_entry_url_def)
  qed
  show ?thesis using out c1 c2 c3 c3' c4 c5 c6 c7 by blast
qed

lemma partial_world_urls:
  "build_moduleUrls (resolveUrl partial_world) [JStr ''/a.json'', JStr ''/b.json'', JStr ''/c.json'']
   = [''https://example.com/a.json'', ''https://example.com/b.json'', ''https://example.com/c.json'']"
  by (simp add: partial_world_def example_resolve_def)

theorem one_failed_module_fetch_witness:
  "manifestUrl partial_world = Some ''https://example.com/.well-known/llm.json''
   \<and> set [2, 0, 1] = {0..<length [JStr ''/a.json'', JStr ''/b.json'', JStr ''/c.json'']}
   \<and> set [1, 2, 0] = {0..<length [JStr ''/a.json'', JStr ''/b.json'', JStr ''/c.json'']}
   \<and> getModule partial_world 1 ''https://example.com/b.json'' = Inl ''404 Not Found''
   \<and> getModule partial_world 0 ''https://example.com/a.json''
       = Inr (JArr [JObj [(''url'', JStr ''https://example.com/a.json'')],
                    JObj [(''checksum'', JStr ''irrelevant'')]])
   \<and> usable_payload (JArr [JObj [(''url'', JStr ''https://example.com/a.json'')],
                            JObj [(''checksum'', JStr ''irrelevant'')]])
   \<and> getModule partial_world 2 ''https://example.com/c.json''
       = Inr (JArr [JObj [(''url'', JStr ''https://example.com/c.json'')],
                    JObj [(''checksum'', JStr ''irrelevant'')]])
   \<and> usable_payload (JArr [JObj [(''url'', JStr ''https://example.com/c.json'')],
                            JObj [(''checksum'', JStr ''irrelevant'')]])
   \<and> (\<exists>effects res.
         runDomainBenchmark id partial_world [2, 0, 1] [1, 2, 0] = (effects, Complete res)
         \<and> length (r_langshakeResults res) = 4
         \<and> r_langshakeResults res ! 2 = Some (ModuleError ''https://example.com/b.json'')
         \<and> length (filter (\<lambda>r. slot_status r = ''error'') (present (r_langshakeResults res))) = 1
         \<and> length (filter (\<lambda>r. slot_status r = ''success'')
                     (present (drop 1 (r_langshakeResults res)))) = 2
         \<and> length (r_pages res) = 3)"
proof -
  let ?m = "JObj [(''modules'', JArr [JStr ''/a.json'', JStr ''/b.json'', JStr ''/c.json'']),
                  (''verification'', JObj [(''merkleRoot'', JStr ''abc123'')])]"
  let ?paths = "[JStr ''/a.json'', JStr ''/b.json'', JStr ''/c.json'']"
  let ?urls = "[''https://example.com/a.json'', ''https://example.com/b.json'',
                ''https://example.com/c.json'']"
  let ?pa = "JArr [JObj [(''url'', JStr ''https://example.com/a.json'')],
                   JObj [(''checksum'', JStr ''irrelevant'')]]"
  let ?pc = "JArr [JObj [(''url'', JStr ''https://example.com/c.json'')],
                   JObj [(''checksum'', JStr ''irrelevant'')]]"
  have h1: "manifestUrl partial_world = Some ''https://example.com/.well-known/llm.json''"
    by (simp add: partial_world_def)
  have h2: "getManifest partial_world 0 = Inr ?m" by (simp add: partial_world_def)
  have h3: "getProp ?m ''modules'' = Inr (Some (JArr ?paths))" by simp
  have h4: "?paths \<noteq> []" by simp
  have h5: "getManifest partial_world 1 = Inr ?m" by (simp add: partial_world_def)
  have h7: "build_moduleUrls (resolveUrl partial_world) ?paths = ?urls" by (rule partial_world_urls)
  have h8: "length ?urls = length ?paths" by simp
  have h9: "set [2, 0, 1] = {0..<length ?paths}" by auto
  have h10: "set [1, 2, 0] = {0..<length ?paths}" by auto
  have h11: "(1::nat) < length ?paths" by simp
  have h12: "getModule partial_world 1 (?urls ! 1) = Inl ''404 Not Found''"
    by (simp add: partial_world_def)
  have g0: "getModule partial_world 0 ''https://example.com/a.json'' = Inr ?pa"
    by (simp add: partial_world_def)
  have g2: "getModule partial_world 2 ''https://example.com/c.json'' = Inr ?pc"
    by (simp add: partial_world_def)
  have u0: "usable_payload ?pa"
    by (simp add: usable_payload_def same_subject_url_def records_of_def has_checksum_tail_iff
          has_subject_url_def subject_url_def getUrl_def)
  have u2: "usable_payload ?pc"
    by (simp add: usable_payload_def same_subject_url_def records_of_def has_checksum_tail_iff
          has_subject_url_def subject_url_def getUrl_def)
  have h13: "\<And>i. i < length ?paths \<Longrightarrow> i \<noteq> 1 \<Longrightarrow>
               \<exists>p. getModule partial_world i (?urls ! i) = Inr p \<and> usable_payload p"
  proof -
    fix i :: nat assume "i < length ?paths" "i \<noteq> 1"
    then have "i = 0 \<or> i = 2" by auto
    then show "\<exists>p. getModule partial_world i (?urls ! i) = Inr p \<and> usable_payload p"
      using g0 g2 u0 u2 by auto
  qed
  from one_failed_module_fetch[of partial_world, OF h1 h2 h3 h4 h5 h3 h7 h8 h9 h10 h11 h12 h13, of id]
  obtain effects res where
    r: "runDomainBenchmark id partial_world [2, 0, 1] [1, 2, 0] = (effects, Complete res)"
      "length (r_langshakeResults res) = length ?paths + 1"
      "r_langshakeResults res ! (1 + 1) = Some (ModuleError (?urls ! 1))"
      "length (filter (\<lambda>r. slot_status r = ''error'') (present (r_langshakeResults res))) = 1"
      "length (filter (\<lambda>r. slot_status r = ''success'') (present (drop 1 (r_langshakeResults res))))
          = length ?paths - 1"
      "length (r_pages res) = length ?paths"
    by blast
  have g: "\<exists>effects res.
         runDomainBenchmark id partial_world [2, 0, 1] [1, 2, 0] = (effects, Complete res)
         \<and> length (r_langshakeResults res) = 4
         \<and> r_langshakeResults res ! 2 = Some (ModuleError ''https://example.com/b.json'')
         \<and> length (filter (\<lambda>r. slot_status r = ''error'') (present (r_langshakeResults res))) = 1
         \<and> length (filter (\<lambda>r. slot_status r = ''success'')
                     (present (drop 1 (r_langshakeResults res)))) = 2
         \<and> length (r_pages res) = 3"
    using r by (intro exI[of _ effects] exI[of _ res]) (simp add: numeral_2_eq_2)
  have h12': "getModule partial_world 1 ''https://example.com/b.json'' = Inl ''404 Not Found''"
    using h12 by simp
  show ?thesis using h1 h9 h10 h12' g0 u0 g2 u2 g by blast
qed

text \<open>
  In this run exactly one module fetch fails, and the fetch of the third module succeeds with
  a payload that is a JSON string: two module entries end as errors, not one.
\<close>

theorem fetched_payload_gives_second_error:
  "getModule string_payload_world 0 ''https://example.com/a.json''
     = Inr (JArr [JObj [(''url'', JStr ''https://example.com/a.json'')],
                  JObj [(''checksum'', JStr ''irrelevant'')]])
   \<and> getModule string_payload_world 1 ''https://example.com/b.json'' = Inl ''404 Not Found''
   \<and> getModule string_payload_world 2 ''https://example.com/c.json'' = Inr (JStr ''oops'')
   \<and> map_option (\<lambda>res. map (map_option slot_status) (r_langshakeResults res))
        (completed (snd (runDomainBenchmark id string_payload_world [0, 1, 2] [0, 1, 2])))
     = Some [Some ''success'', Some ''success'', Some ''error'', Some ''error'']"
  by code_simp

section \<open>Manifest-stage failures\<close>

text \<open>
  Whenever the first manifest GET fails, or the manifest (a document other than \<^verbatim>\<open>null\<close>)
  has no list under \<^verbatim>\<open>modules\<close>, or that list is empty, the coordinator returns
  \<^verbatim>\<open>{error}\<close> after at most the one manifest request: no module GET, no crawl, no pages
  and no summary. The missing list and the empty list have different messages.
\<close>

lemma manifest_stage_errors:
  "manifestUrl w = None \<Longrightarrow>
     runDomainBenchmark H w order1 order2 = ([], ErrorResult msg_not_found None)"
  "manifestUrl w = Some llmUrl \<Longrightarrow> getManifest w 0 = Inl msg \<Longrightarrow>
     runDomainBenchmark H w order1 order2 = ([plain_get llmUrl], ErrorResult msg_not_found None)"
  "manifestUrl w = Some llmUrl \<Longrightarrow> getManifest w 0 = Inr llmJson \<Longrightarrow> llmJson \<noteq> JNull \<Longrightarrow>
     \<forall>paths. getProp llmJson ''modules'' \<noteq> Inr (Some (JArr paths)) \<Longrightarrow>
     runDomainBenchmark H w order1 order2 = ([plain_get llmUrl], ErrorResult msg_no_modules None)"
  "manifestUrl w = Some llmUrl \<Longrightarrow> getManifest w 0 = Inr llmJson \<Longrightarrow>
     getProp llmJson ''modules'' = Inr (Some (JArr [])) \<Longrightarrow>
     runDomainBenchmark H w order1 order2 = ([plain_get llmUrl], ErrorResult msg_empty None)"
  "msg_no_modules \<noteq> msg_empty"
proof -
  show "manifestUrl w = None \<Longrightarrow>
     runDomainBenchmark H w order1 order2 = ([], ErrorResult msg_not_found None)"
    by (simp add: runDomainBenchmark_def)
  show "manifestUrl w = Some llmUrl \<Longrightarrow> getManifest w 0 = Inl msg \<Longrightarrow>
     runDomainBenchmark H w order1 order2 = ([plain_get llmUrl], ErrorResult msg_not_found None)"
    by (simp add: runDomainBenchmark_def)
  show "manifestUrl w = Some llmUrl \<Longrightarrow> getManifest w 0 = Inr llmJson \<Longrightarrow> llmJson \<noteq> JNull \<Longrightarrow>
     \<forall>paths. getProp llmJson ''modules'' \<noteq> Inr (Some (JArr paths)) \<Longrightarrow>
     runDomainBenchmark H w order1 order2 = ([plain_get llmUrl], ErrorResult msg_no_modules None)"
    by (cases llmJson) (auto simp: runDomainBenchmark_def Let_def split: option.splits json.splits)
  show "manifestUrl w = Some llmUrl \<Longrightarrow> getManifest w 0 = Inr llmJson \<Longrightarrow>
     getProp llmJson ''modules'' = Inr (Some (JArr [])) \<Longrightarrow>
     runDomainBenchmark H w order1 order2 = ([plain_get llmUrl], ErrorResult msg_empty None)"
    by (simp add: runDomainBenchmark_def Let_def)
  show "msg_no_modules \<noteq> msg_empty" by (simp add: msg_no_modules_def msg_empty_def)
qed


text \<open>
  Claim C3, at the manifest document \<^verbatim>\<open>null\<close>. Line 81 reads it through
  \<^verbatim>\<open>llmJson?.verification\<close>, line 93 reads \<^verbatim>\<open>llmJson.modules\<close> outside the
  \<^verbatim>\<open>try\<close> block: the TypeError leaves \<^verbatim>\<open>runDomainBenchmark\<close> as a rejected promise,
  not as an \<^verbatim>\<open>{error}\<close> result.
\<close>

theorem null_manifest_is_rejected:
  "runDomainBenchmark H null_manifest_world order1 order2 =
     ([plain_get ''https://example.com/.well-known/llm.json''], Rejected TypeError)"
  by (simp add: runDomainBenchmark_def null_manifest_world_def)

section \<open>The summary\<close>

lemma run_phases_summary:
  "run_phases H w llmUrl root order1 order2 = (effects, Complete res) \<Longrightarrow>
   r_summary res = summarize H (r_pages res) root"
  by (auto simp: run_phases_def Let_def split: option.splits sum.splits json.splits prod.splits)

lemma runDomainBenchmark_summary:
  "runDomainBenchmark H w order1 order2 = (effects, Complete res) \<Longrightarrow>
   \<exists>llmJson. getManifest w 0 = Inr llmJson
      \<and> r_summary res =
          summarize H (r_pages res)
            (or_null (getProp_chain (getProp_chain (Some llmJson) ''verification'') ''merkleRoot''))"
  by (auto simp: runDomainBenchmark_def Let_def simp del: getProp_chain.simps
           dest: run_phases_summary
           split: option.splits sum.splits json.splits prod.splits if_splits)

text \<open>
  Claim C7, as the code has it. The two computed roots are the Merkle roots over the pages'
  LangShake checksums and over their Traditional checksums (empty checksums left out).
  \<^verbatim>\<open>merkleRootLangshakeValid\<close> and \<^verbatim>\<open>merkleRootTraditionalValid\<close> compare one computed root
  each with the root the manifest declares. \<^verbatim>\<open>merkleRootsMatch\<close> holds iff the two computed
  roots are equal and equal to the declared root, that is, iff the other two flags both hold.
  The summary of a completed run is computed this way from its pages and from the root
  declared by the first manifest response.
\<close>

theorem summary_flags:
  "merkleRootLangshake (summarize H pages llm)
     = calculateMerkleRoot H (filter (\<lambda>c. c \<noteq> []) (map langshakeChecksum (present pages)))
   \<and> merkleRootTraditional (summarize H pages llm)
     = calculateMerkleRoot H (filter (\<lambda>c. c \<noteq> []) (map traditionalChecksum (present pages)))
   \<and> merkleRootLlmJson (summarize H pages llm) = llm
   \<and> merkleRootLangshakeValid (summarize H pages llm)
     = (JStr (merkleRootLangshake (summarize H pages llm)) = llm)
   \<and> merkleRootTraditionalValid (summarize H pages llm)
     = (JStr (merkleRootTraditional (summarize H pages llm)) = llm)
   \<and> merkleRootsMatch (summarize H pages llm)
     = (merkleRootLangshake (summarize H pages llm) = merkleRootTraditional (summarize H pages llm)
        \<and> JStr (merkleRootLangshake (summarize H pages llm)) = llm)
   \<and> merkleRootsMatch (summarize H pages llm)
     = (merkleRootLangshakeValid (summarize H pages llm)
        \<and> merkleRootTraditionalValid (summarize H pages llm))
   \<and> (runDomainBenchmark H w order1 order2 = (effects, Complete res) \<longrightarrow>
        (\<exists>llmJson. getManifest w 0 = Inr llmJson
           \<and> r_summary res =
               summarize H (r_pages res)
                 (or_null (getProp_chain (getProp_chain (Some llmJson) ''verification'')
                             ''merkleRoot''))))"
  using runDomainBenchmark_summary[of H w order1 order2 effects res]
  by (auto simp: summarize_def Let_def)


theorem summary_flags_witness:
  "\<exists>res. completed (snd (runDomainBenchmark id agreeing_world [0] [0])) = Some res
     \<and> r_summary res = summarize id (r_pages res) (JStr ''irrelevant'')
     \<and> merkleRootsMatch (summarize id (r_pages res) (JStr ''irrelevant''))
         = (merkleRootLangshakeValid (summarize id (r_pages res) (JStr ''irrelevant''))
            \<and> merkleRootTraditionalValid (summarize id (r_pages res) (JStr ''irrelevant'')))"
proof -
  have "completed (snd (runDomainBenchmark id agreeing_world [0] [0])) \<noteq> None"
    by code_simp
  then obtain res where c: "completed (snd (runDomainBenchmark id agreeing_world [0] [0])) = Some res"
    by blast
  then have s: "snd (runDomainBenchmark id agreeing_world [0] [0]) = Complete res"
    by (cases "snd (runDomainBenchmark id agreeing_world [0] [0])") auto
  obtain effects where run: "runDomainBenchmark id agreeing_world [0] [0] = (effects, Complete res)"
    using s by (cases "runDomainBenchmark id agreeing_world [0] [0]") auto
  note t = summary_flags[of id "r_pages res" "JStr ''irrelevant''" agreeing_world "[0]" "[0]" effects res]
  from t run obtain llmJson where m: "getManifest agreeing_world 0 = Inr llmJson"
    "r_summary res = summarize id (r_pages res)
       (or_null (getProp_chain (getProp_chain (Some llmJson) ''verification'') ''merkleRoot''))"
    by blast
  have "or_null (getProp_chain (getProp_chain (Some llmJson) ''verification'') ''merkleRoot'')
        = JStr ''irrelevant''"
    using m(1) by (auto simp: agreeing_world_def)
  then have "r_summary res = summarize id (r_pages res) (JStr ''irrelevant'')" using m(2) by simp
  then show ?thesis using c t by blast
qed

text \<open>
  Both pipelines deliver the same records, so the two computed roots are equal, and the
  manifest declares another root: \<^verbatim>\<open>merkleRootsMatch\<close> is false. (The hash is replaced by
  the identity here; the flags do not depend on it.)
\<close>

theorem equal_roots_and_false_flag:
  "map_option (merkleRootsMatch \<circ> r_summary)
     (completed (snd (runDomainBenchmark id agreeing_world [0] [0]))) = Some False
   \<and> map_option (merkleRootLangshake \<circ> r_summary)
       (completed (snd (runDomainBenchmark id agreeing_world [0] [0])))
     = map_option (merkleRootTraditional \<circ> r_summary)
         (completed (snd (runDomainBenchmark id agreeing_world [0] [0])))
   \<and> completed (snd (runDomainBenchmark id agreeing_world [0] [0])) \<noteq> None"
  by code_simp

section \<open>The fetch policy\<close>

lemma merged_headers_empty:
  "AList.update ''Pragma'' ''no-cache'' (AList.update ''Cache-Control'' ''no-cache'' [])
   = [(''Cache-Control'', ''no-cache''), (''Pragma'', ''no-cache'')]"
  by simp

lemma retry_unfold:
  "attempt \<le> retries \<Longrightarrow>
   retry_loop net url [] retries delayMs attempt =
     (case net attempt (retry_request url) of
        Inr res \<Rightarrow> ([Get (retry_request url)], Returned res)
      | Inl err \<Rightarrow>
          if attempt = retries then ([Get (retry_request url)], Threw (NetworkError err))
          else (case retry_loop net url [] retries delayMs (Suc attempt) of
                  (effects, out) \<Rightarrow> (Get (retry_request url) # Sleep delayMs # effects, out)))"
  by (subst retry_loop.simps) (simp add: retry_request_def Let_def split: sum.splits)

lemma axiosGetWithRetry_cases:
  "axiosGetWithRetry net url =
     (case net 1 (retry_request url) of
        Inr res \<Rightarrow> ([Get (retry_request url)], Returned res)
      | Inl e1 \<Rightarrow>
          (case net 2 (retry_request url) of
             Inr res \<Rightarrow>
               ([Get (retry_request url), Sleep 500, Get (retry_request url)], Returned res)
           | Inl e2 \<Rightarrow>
               (case net 3 (retry_request url) of
                  Inr res \<Rightarrow>
                    ([Get (retry_request url), Sleep 500, Get (retry_request url), Sleep 500,
                      Get (retry_request url)], Returned res)
                | Inl e3 \<Rightarrow>
                    ([Get (retry_request url), Sleep 500, Get (retry_request url), Sleep 500,
                      Get (retry_request url)], Threw (NetworkError e3)))))"
proof -
  have 3: "retry_loop net url [] (Suc (Suc (Suc 0))) 500 (Suc (Suc (Suc 0))) =
     (case net (Suc (Suc (Suc 0))) (retry_request url) of
        Inr res \<Rightarrow> ([Get (retry_request url)], Returned res)
      | Inl err \<Rightarrow> ([Get (retry_request url)], Threw (NetworkError err)))"
    by (simp add: retry_unfold split: sum.splits)
  have 2: "retry_loop net url [] (Suc (Suc (Suc 0))) 500 (Suc (Suc 0)) =
     (case net (Suc (Suc 0)) (retry_request url) of
        Inr res \<Rightarrow> ([Get (retry_request url)], Returned res)
      | Inl err \<Rightarrow>
          (case retry_loop net url [] (Suc (Suc (Suc 0))) 500 (Suc (Suc (Suc 0))) of
             (effects, out) \<Rightarrow> (Get (retry_request url) # Sleep 500 # effects, out)))"
    by (simp add: retry_unfold split: sum.splits)
  have 1: "retry_loop net url [] (Suc (Suc (Suc 0))) 500 (Suc 0) =
     (case net (Suc 0) (retry_request url) of
        Inr res \<Rightarrow> ([Get (retry_request url)], Returned res)
      | Inl err \<Rightarrow>
          (case retry_loop net url [] (Suc (Suc (Suc 0))) 500 (Suc (Suc 0)) of
             (effects, out) \<Rightarrow> (Get (retry_request url) # Sleep 500 # effects, out)))"
    by (simp add: retry_unfold split: sum.splits)
  show ?thesis
    unfolding axiosGetWithRetry_def
    by (simp add: numeral_3_eq_3 numeral_2_eq_2 1 2 3 split: sum.splits)
qed

lemma run_phases_effects:
  "list_all unretried (fst (run_phases H w llmUrl root order1 order2))"
  by (auto simp: run_phases_def Let_def plain_get_def list_all_iff
           split: option.splits sum.splits json.splits prod.splits)

lemma run_phases_effects_pair:
  "run_phases H w llmUrl root order1 order2 = (effects, out) \<Longrightarrow> list_all unretried effects"
  using run_phases_effects[of H w llmUrl root order1 order2] by simp

lemma coordinator_effects:
  "list_all unretried (fst (runDomainBenchmark H w order1 order2))"
  by (auto simp: runDomainBenchmark_def Let_def plain_get_def
           dest: run_phases_effects_pair
           split: option.splits sum.splits json.splits prod.splits if_splits)

lemma validateModule_effects:
  "resolve modPath = Some modUrl \<Longrightarrow>
   fst (validateModule H net resolve modPath) = fst (axiosGetWithRetry net modUrl)"
  by (cases "axiosGetWithRetry net modUrl"; cases "snd (axiosGetWithRetry net modUrl)")
     (auto simp: validateModule_def)

lemma run_phases_requests:
  assumes m1: "getManifest w 1 = Inr m1"
    and mods: "getProp m1 ''modules'' = Inr (Some (JArr paths))"
  shows "\<exists>crawls. fst (run_phases H w llmUrl root order1 order2)
           = plain_get llmUrl # map plain_get (build_moduleUrls (resolveUrl w) paths)
               @ map Crawl crawls"
proof -
  let ?urls = "build_moduleUrls (resolveUrl w) paths"
  let ?es = "mainEntityUrls_of (fst (langshake_phase w ?urls order1 [Some (ManifestSuccess llmUrl m1)]))"
  have c: "map (\<lambda>(url, module). Crawl url) (present ?es) = map Crawl (map fst (present ?es))"
    by (simp add: case_prod_beta)
  have "fst (run_phases H w llmUrl root order1 order2)
        = plain_get llmUrl # map plain_get ?urls @ map (\<lambda>(url, module). Crawl url) (present ?es)"
    unfolding run_phases_def
    by (simp only: m1 mods sum.case option.case json.case Let_def) (simp split: sum.splits)
  then show ?thesis using c by metis
qed

lemma run_phases_manifest_failure:
  "getManifest w 1 = Inl msg \<Longrightarrow>
   fst (run_phases H w llmUrl root order1 order2) = [plain_get llmUrl]"
  by (simp add: run_phases_def)

lemma coordinator_requests:
  assumes "manifestUrl w = Some llmUrl" and "getManifest w 0 = Inr m0"
    and "getProp m0 ''modules'' = Inr (Some (JArr paths0))" and "paths0 \<noteq> []"
  shows "getManifest w 1 = Inl msg \<Longrightarrow>
           fst (runDomainBenchmark H w order1 order2) = [plain_get llmUrl, plain_get llmUrl]"
    and "getManifest w 1 = Inr m1 \<Longrightarrow> getProp m1 ''modules'' = Inr (Some (JArr paths)) \<Longrightarrow>
           \<exists>crawls. fst (runDomainBenchmark H w order1 order2)
             = plain_get llmUrl # plain_get llmUrl
                 # map plain_get (build_moduleUrls (resolveUrl w) paths) @ map Crawl crawls"
proof -
  let ?root = "or_null (getProp_chain (getProp_chain (Some m0) ''verification'') ''merkleRoot'')"
  have r: "fst (runDomainBenchmark H w order1 order2)
           = plain_get llmUrl # fst (run_phases H w llmUrl ?root order1 order2)"
    using runDomainBenchmark_phases[OF assms, of H order1 order2] by simp
  show "getManifest w 1 = Inl msg \<Longrightarrow>
           fst (runDomainBenchmark H w order1 order2) = [plain_get llmUrl, plain_get llmUrl]"
    using r by (simp add: run_phases_manifest_failure)
  show "getManifest w 1 = Inr m1 \<Longrightarrow> getProp m1 ''modules'' = Inr (Some (JArr paths)) \<Longrightarrow>
           \<exists>crawls. fst (runDomainBenchmark H w order1 order2)
             = plain_get llmUrl # plain_get llmUrl
                 # map plain_get (build_moduleUrls (resolveUrl w) paths) @ map Crawl crawls"
    using r run_phases_requests[of w m1 paths H llmUrl ?root order1 order2] by auto
qed

lemma first_manifest_failure:
  "manifestUrl w = Some llmUrl \<Longrightarrow> getManifest w 0 = Inl msg \<Longrightarrow>
   runDomainBenchmark H w order1 order2 = ([plain_get llmUrl], ErrorResult msg_not_found None)"
  by (simp add: runDomainBenchmark_def)

text \<open>
  Claim C8, as the code has it. \<^verbatim>\<open>axiosGetWithRetry\<close>, the fetch helper of the LangShake
  crawler, sends every attempt with the no-cache headers and a timeout of 10000 ms, stops
  at the first attempt that succeeds, waits 500 ms between two attempts, and after the third
  failed attempt throws that attempt's error without waiting again; \<^verbatim>\<open>validateModule\<close>
  fetches through it. The domain benchmark coordinator does not apply this policy. Every
  request it sends carries the no-cache headers and no timeout, and it never pauses. It asks
  for the manifest once and stops when that request fails; otherwise it asks for the manifest
  a second time and stops when that request fails; otherwise it asks once for each module URL
  of the second manifest, in manifest order, and then only crawls pages. A module request
  that fails settles its task with the error entry at once.
\<close>

theorem fetch_policy:
  "axiosGetWithRetry net url =
     (case net 1 (retry_request url) of
        Inr res \<Rightarrow> ([Get (retry_request url)], Returned res)
      | Inl e1 \<Rightarrow>
          (case net 2 (retry_request url) of
             Inr res \<Rightarrow>
               ([Get (retry_request url), Sleep 500, Get (retry_request url)], Returned res)
           | Inl e2 \<Rightarrow>
               (case net 3 (retry_request url) of
                  Inr res \<Rightarrow>
                    ([Get (retry_request url), Sleep 500, Get (retry_request url), Sleep 500,
                      Get (retry_request url)], Returned res)
                | Inl e3 \<Rightarrow>
                    ([Get (retry_request url), Sleep 500, Get (retry_request url), Sleep 500,
                      Get (retry_request url)], Threw (NetworkError e3)))))
   \<and> (resolve modPath = Some modUrl \<longrightarrow>
        fst (validateModule H net resolve modPath) = fst (axiosGetWithRetry net modUrl))
   \<and> list_all unretried (fst (runDomainBenchmark H w order1 order2))
   \<and> plain_get url =
        Get \<lparr>req_url = url,
             req_headers = [(''Cache-Control'', ''no-cache''), (''Pragma'', ''no-cache'')],
             req_timeout = None\<rparr>
   \<and> (manifestUrl w = Some llmUrl \<and> getManifest w 0 = Inl msg0 \<longrightarrow>
        runDomainBenchmark H w order1 order2 = ([plain_get llmUrl], ErrorResult msg_not_found None))
   \<and> (manifestUrl w = Some llmUrl \<and> getManifest w 0 = Inr m0
        \<and> getProp m0 ''modules'' = Inr (Some (JArr paths0)) \<and> paths0 \<noteq> []
        \<and> getManifest w 1 = Inl msg1 \<longrightarrow>
        fst (runDomainBenchmark H w order1 order2) = [plain_get llmUrl, plain_get llmUrl])
   \<and> (manifestUrl w = Some llmUrl \<and> getManifest w 0 = Inr m0
        \<and> getProp m0 ''modules'' = Inr (Some (JArr paths0)) \<and> paths0 \<noteq> []
        \<and> getManifest w 1 = Inr m1 \<and> getProp m1 ''modules'' = Inr (Some (JArr paths)) \<longrightarrow>
        (\<exists>crawls. fst (runDomainBenchmark H w order1 order2)
           = plain_get llmUrl # plain_get llmUrl
               # map plain_get (build_moduleUrls (resolveUrl w) paths) @ map Crawl crawls))
   \<and> module_task modUrl (Inl msg2) = (ModuleError modUrl, [(JStr modUrl, NetworkError msg2)])"
proof -
  have p: "plain_get url =
        Get \<lparr>req_url = url,
             req_headers = [(''Cache-Control'', ''no-cache''), (''Pragma'', ''no-cache'')],
             req_timeout = None\<rparr>"
    by (simp add: plain_get_def no_cache_def)
  have m: "module_task modUrl (Inl msg2) = (ModuleError modUrl, [(JStr modUrl, NetworkError msg2)])"
    by (simp add: module_task_def)
  show ?thesis
    using axiosGetWithRetry_cases[of net url] validateModule_effects[of resolve modPath modUrl H net]
      coordinator_effects[of H w order1 order2] p
      first_manifest_failure[of w llmUrl msg0 H order1 order2]
      coordinator_requests(1)[of w llmUrl m0 paths0 msg1 H order1 order2]
      coordinator_requests(2)[of w llmUrl m0 paths0 m1 paths H order1 order2] m
    by blast
qed

theorem fetch_policy_witness:
  "axiosGetWithRetry (\<lambda>attempt req. if attempt < 3 then Inl ''ETIMEDOUT'' else Inr (JArr []))
     ''https://example.com/a.json''
   = ([Get (retry_request ''https://example.com/a.json''), Sleep 500,
       Get (retry_request ''https://example.com/a.json''), Sleep 500,
       Get (retry_request ''https://example.com/a.json'')], Returned (JArr []))
   \<and> example_resolve (JStr ''/a.json'') = Some ''https://example.com/a.json''
   \<and> fst (validateModule id (\<lambda>attempt req. if attempt < 3 then Inl ''ETIMEDOUT'' else Inr (JArr []))
            example_resolve (JStr ''/a.json''))
     = [Get (retry_request ''https://example.com/a.json''), Sleep 500,
        Get (retry_request ''https://example.com/a.json''), Sleep 500,
        Get (retry_request ''https://example.com/a.json'')]
   \<and> list_all unretried (fst (runDomainBenchmark id partial_world [0, 1, 2] [0, 1, 2]))
   \<and> getManifest (partial_world\<lparr>getManifest := \<lambda>k. Inl ''ECONNREFUSED''\<rparr>) 0 = Inl ''ECONNREFUSED''
   \<and> runDomainBenchmark id (partial_world\<lparr>getManifest := \<lambda>k. Inl ''ECONNREFUSED''\<rparr>)
        [0, 1, 2] [0, 1, 2]
     = ([plain_get ''https://example.com/.well-known/llm.json''], ErrorResult msg_not_found None)
   \<and> getManifest (partial_world\<lparr>getManifest :=
          \<lambda>k. if k = 0 then getManifest partial_world 0 else Inl ''ECONNRESET''\<rparr>) 1
     = Inl ''ECONNRESET''
   \<and> fst (runDomainBenchmark id (partial_world\<lparr>getManifest :=
          \<lambda>k. if k = 0 then getManifest partial_world 0 else Inl ''ECONNRESET''\<rparr>)
        [0, 1, 2] [0, 1, 2])
     = [plain_get ''https://example.com/.well-known/llm.json'',
        plain_get ''https://example.com/.well-known/llm.json'']
   \<and> getModule partial_world 1 ''https://example.com/b.json'' = Inl ''404 Not Found''
   \<and> (\<exists>crawls. fst (runDomainBenchmark id partial_world [0, 1, 2] [0, 1, 2])
         = plain_get ''https://example.com/.well-known/llm.json''
           # plain_get ''https://example.com/.well-known/llm.json''
           # map plain_get [''https://example.com/a.json'', ''https://example.com/b.json'',
                            ''https://example.com/c.json'']
           @ map Crawl crawls)"
proof -
  let ?net = "\<lambda>(attempt::nat) (req::request). if attempt < 3 then Inl ''ETIMEDOUT'' else Inr (JArr [])"
  let ?m = "JObj [(''modules'', JArr [JStr ''/a.json'', JStr ''/b.json'', JStr ''/c.json'']),
                  (''verification'', JObj [(''merkleRoot'', JStr ''abc123'')])]"
  let ?paths = "[JStr ''/a.json'', JStr ''/b.json'', JStr ''/c.json'']"
  let ?llm = "''https://example.com/.well-known/llm.json''"
  let ?w0 = "partial_world\<lparr>getManifest := \<lambda>k. Inl ''ECONNREFUSED''\<rparr>"
  let ?w1 = "partial_world\<lparr>getManifest :=
          \<lambda>k. if k = 0 then getManifest partial_world 0 else Inl ''ECONNRESET''\<rparr>"
  note t = fetch_policy[of ?net "''https://example.com/a.json''" example_resolve "JStr ''/a.json''"
      "''https://example.com/a.json''" id partial_world "[0, 1, 2]" "[0, 1, 2]"
      ?llm "''none''" ?m ?paths "''none''" ?m ?paths]
  note t0 = fetch_policy[of ?net "''https://example.com/a.json''" example_resolve "JStr ''/a.json''"
      "''https://example.com/a.json''" id ?w0 "[0, 1, 2]" "[0, 1, 2]"
      ?llm "''ECONNREFUSED''" ?m ?paths "''none''" ?m ?paths]
  note t1 = fetch_policy[of ?net "''https://example.com/a.json''" example_resolve "JStr ''/a.json''"
      "''https://example.com/a.json''" id ?w1 "[0, 1, 2]" "[0, 1, 2]"
      ?llm "''none''" ?m ?paths "''ECONNRESET''" ?m ?paths]
  have r: "example_resolve (JStr ''/a.json'') = Some ''https://example.com/a.json''"
    by (simp add: example_resolve_def)
  have a: "axiosGetWithRetry ?net ''https://example.com/a.json''
   = ([Get (retry_request ''https://example.com/a.json''), Sleep 500,
       Get (retry_request ''https://example.com/a.json''), Sleep 500,
       Get (retry_request ''https://example.com/a.json'')], Returned (JArr []))"
    using t by simp
  have v: "fst (validateModule id ?net example_resolve (JStr ''/a.json''))
           = fst (axiosGetWithRetry ?net ''https://example.com/a.json'')"
    using t r by blast
  have u: "list_all unretried (fst (runDomainBenchmark id partial_world [0, 1, 2] [0, 1, 2]))"
    using t by blast
  have h: "manifestUrl partial_world = Some ?llm" "getManifest partial_world 0 = Inr ?m"
    "getManifest partial_world 1 = Inr ?m" "getProp ?m ''modules'' = Inr (Some (JArr ?paths))"
    "?paths \<noteq> []"
    by (simp_all add: partial_world_def)
  have f0: "getManifest ?w0 0 = Inl ''ECONNREFUSED''" by simp
  have g0: "runDomainBenchmark id ?w0 [0, 1, 2] [0, 1, 2]
            = ([plain_get ?llm], ErrorResult msg_not_found None)"
    using t0 h(1) f0 by simp
  have f1: "getManifest ?w1 1 = Inl ''ECONNRESET''" by simp
  have f1': "getManifest ?w1 0 = Inr ?m" using h(2) by simp
  have g1: "fst (runDomainBenchmark id ?w1 [0, 1, 2] [0, 1, 2]) = [plain_get ?llm, plain_get ?llm]"
    using t1 h(1) h(4) h(5) f1 f1' by simp
  have b: "getModule partial_world 1 ''https://example.com/b.json'' = Inl ''404 Not Found''"
    by (simp add: partial_world_def)
  have "\<exists>crawls. fst (runDomainBenchmark id partial_world [0, 1, 2] [0, 1, 2])
         = plain_get ?llm # plain_get ?llm
           # map plain_get (build_moduleUrls (resolveUrl partial_world) ?paths) @ map Crawl crawls"
    using t h by blast
  then have g: "\<exists>crawls. fst (runDomainBenchmark id partial_world [0, 1, 2] [0, 1, 2])
         = plain_get ?llm # plain_get ?llm
           # map plain_get [''https://example.com/a.json'', ''https://example.com/b.json'',
                            ''https://example.com/c.json'']
           @ map Crawl crawls"
    by (simp only: partial_world_urls)
  show ?thesis using a r v u f0 g0 f1 g1 b g by simp
qed

text \<open>
  Module 1 of this run cannot be fetched. The coordinator asks for it once, without a timeout,
  and goes on: no second attempt and no pause.
\<close>

theorem coordinator_does_not_retry:
  "getModule partial_world 1 ''https://example.com/b.json'' = Inl ''404 Not Found''
   \<and> fst (runDomainBenchmark id partial_world [0, 1, 2] [0, 1, 2])
     = [Get \<lparr>req_url = ''https://example.com/.well-known/llm.json'', req_headers = no_cache,
              req_timeout = None\<rparr>,
        Get \<lparr>req_url = ''https://example.com/.well-known/llm.json'', req_headers = no_cache,
              req_timeout = None\<rparr>,
        Get \<lparr>req_url = ''https://example.com/a.json'', req_headers = no_cache,
              req_timeout = None\<rparr>,
        Get \<lparr>req_url = ''https://example.com/b.json'', req_headers = no_cache,
              req_timeout = None\<rparr>,
        Get \<lparr>req_url = ''https://example.com/c.json'', req_headers = no_cache,
              req_timeout = None\<rparr>,
        Crawl (JStr ''https://example.com/a.json''),
        Crawl (JStr ''https://example.com/b.json''),
        Crawl (JStr ''https://example.com/c.json'')]"
  by code_simp

end
